theory Spec2Isabelle
  imports Main "HOL-Library.Word" "HOL-Library.Multiset"
begin

unbundle bit_operations_syntax

section \<open>Lua values and the part of the Lua C API the sources call\<close>

text \<open>
  The Lua interpreter is a library outside the repository.  Its values are modelled by a
  datatype.  A number carries the integer that \<open>lua_tointeger\<close> reads from it.  A table
  carries its string-keyed fields and its array part \<open>t[1..n]\<close>, where \<open>n\<close> is what
  \<open>lua_rawlen\<close> reports (a slot of the array part may hold \<open>nil\<close>).  Metatables are
  not modelled: \<open>lua_getfield\<close> reads the field itself.
\<close>

datatype lua_value =
    LNil
  | LBoolean bool
  | LNumber int
  | LString string
  | LTable "(string \<times> lua_value) list" "lua_value list"
  | LFunction nat
  | LUserdata nat
  | LLightUserdata nat

text \<open>
  What the sources leave to their environment is a parameter of the model:
  \<^item> Lua coerces between numbers and strings: \<open>number2str\<close> is how a number is printed
    (\<open>lua_tostring\<close> on a number), \<open>str2number\<close> says which strings read as numbers
    (\<open>lua_isnumber\<close>, \<open>lua_tointeger\<close> on a string);
  \<^item> the type of the field \<open>argN\<close> of a filter item is declared in the bus client's
    header, which is not among the sources: \<open>argN_store n\<close> is the value the field holds
    after \<open>n\<close>, the result of \<open>lua_tointeger\<close>, has been assigned to it (the identity
    for a field as wide as \<open>lua_Integer\<close>, \<open>n mod 256\<close> for an unsigned 8-bit field).
\<close>

record platform =
  number2str :: "int \<Rightarrow> string"
  str2number :: "string \<Rightarrow> int option"
  argN_store :: "int \<Rightarrow> int"

definition lua_isnil :: "lua_value \<Rightarrow> bool" where
  "lua_isnil v = (v = LNil)"

fun lua_istable :: "lua_value \<Rightarrow> bool" where
  "lua_istable (LTable fs arr) = True"
| "lua_istable _ = False"

fun lua_isboolean :: "lua_value \<Rightarrow> bool" where
  "lua_isboolean (LBoolean b) = True"
| "lua_isboolean _ = False"

fun lua_toboolean :: "lua_value \<Rightarrow> bool" where
  "lua_toboolean LNil = False"
| "lua_toboolean (LBoolean b) = b"
| "lua_toboolean _ = True"

fun lua_isnumber :: "platform \<Rightarrow> lua_value \<Rightarrow> bool" where
  "lua_isnumber lib (LNumber n) = True"
| "lua_isnumber lib (LString s) = (str2number lib s \<noteq> None)"
| "lua_isnumber lib _ = False"

fun lua_tointeger :: "platform \<Rightarrow> lua_value \<Rightarrow> int" where
  "lua_tointeger lib (LNumber n) = n"
| "lua_tointeger lib (LString s) = (case str2number lib s of Some n \<Rightarrow> n | None \<Rightarrow> 0)"
| "lua_tointeger lib _ = 0"

fun lua_isstring :: "lua_value \<Rightarrow> bool" where
  "lua_isstring (LString s) = True"
| "lua_isstring (LNumber n) = True"
| "lua_isstring _ = False"

text \<open>\<open>lua_tostring\<close> returns \<open>NULL\<close> (\<open>None\<close>) for anything but a string or a number.\<close>

fun lua_tostring :: "platform \<Rightarrow> lua_value \<Rightarrow> string option" where
  "lua_tostring lib (LString s) = Some s"
| "lua_tostring lib (LNumber n) = Some (number2str lib n)"
| "lua_tostring lib _ = None"

text \<open>
  \<open>lua_getfield\<close> is only applied to values already known to be tables; on any other value
  the interpreter raises an error, which the callers below make a branch of their own.
\<close>

fun lua_getfield :: "lua_value \<Rightarrow> string \<Rightarrow> lua_value" where
  "lua_getfield (LTable fs arr) k = (case map_of fs k of Some v \<Rightarrow> v | None \<Rightarrow> LNil)"
| "lua_getfield _ k = LNil"

fun lua_rawlen :: "lua_value \<Rightarrow> nat" where
  "lua_rawlen (LTable fs arr) = length arr"
| "lua_rawlen (LString s) = length s"
| "lua_rawlen _ = 0"

fun lua_rawgeti :: "lua_value \<Rightarrow> int \<Rightarrow> lua_value" where
  "lua_rawgeti (LTable fs arr) i =
     (if 1 \<le> i \<and> i \<le> int (length arr) then arr ! nat (i - 1) else LNil)"
| "lua_rawgeti _ i = LNil"

fun lua_touserdata :: "lua_value \<Rightarrow> nat option" where
  "lua_touserdata (LUserdata p) = Some p"
| "lua_touserdata (LLightUserdata p) = Some p"
| "lua_touserdata _ = None"

text \<open>
  A C string ends at its first NUL byte; a Lua string may contain NUL bytes.  \<open>strcmp\<close>
  and \<open>strdup\<close> see only the prefix before the first NUL.
\<close>

definition c_str :: "string \<Rightarrow> string" where
  "c_str s = takeWhile (\<lambda>c. c \<noteq> CHR 0x00) s"

section \<open>The native side: heap blocks, the bus client, the registry, the call log\<close>

type_synonym addr = nat

text \<open>A \<open>char*\<close> is \<open>NULL\<close> or the address of a block together with the characters in it.\<close>

type_synonym c_string = "(addr \<times> string) option"

datatype cdbus_MatchMsgType =
    CDBUS_MATCH_MSG_ANY
  | CDBUS_MATCH_MSG_METHOD_CALL
  | CDBUS_MATCH_MSG_METHOD_RETURN
  | CDBUS_MATCH_MSG_ERROR
  | CDBUS_MATCH_MSG_SIGNAL

datatype cdbus_FilterArgType =
    CDBUS_FILTER_ARG_INVALID
  | CDBUS_FILTER_ARG
  | CDBUS_FILTER_ARG_PATH

text \<open>
  The structures of the bus client's header, as \<open>l2dbus_newMatch\<close> fills them.  The header
  is not among the sources: \<open>argN\<close> holds the value of the field as an integer, whatever
  the field's type; what an assignment stores in it is \<open>argN_store\<close>.
\<close>

record cdbus_FilterArgItem =
  argType :: cdbus_FilterArgType
  argN :: int
  argValue :: c_string

record cdbus_MatchRule =
  r_msgType :: cdbus_MatchMsgType
  r_member :: c_string
  r_objInterface :: c_string
  r_sender :: c_string
  r_path :: c_string
  r_treatPathAsNamespace :: bool
  r_arg0Namespace :: c_string
  r_eavesdrop :: bool
  r_filterArgs :: "(addr \<times> cdbus_FilterArgItem list) option"

text \<open>
  What the bus client keeps of a rule it registers: the scalar fields, the characters of
  each string, and the filter items before the sentinel.
\<close>

record cdbus_RegisteredRule =
  m_msgType :: cdbus_MatchMsgType
  m_member :: "string option"
  m_objInterface :: "string option"
  m_sender :: "string option"
  m_path :: "string option"
  m_treatPathAsNamespace :: bool
  m_arg0Namespace :: "string option"
  m_eavesdrop :: bool
  m_filterArgs :: "(cdbus_FilterArgType \<times> int \<times> string option) list"

datatype trace_level = L2DBUS_TRC_TRACE | L2DBUS_TRC_WARN | L2DBUS_TRC_ERROR

datatype cdbus_HResult = CDBUS_RESULT_SUCCESS | CDBUS_RESULT_FAILURE

datatype trace_arg = TraceStr string | TraceHResult cdbus_HResult

text \<open>The calls made to the collaborators, in the order they are made.\<close>

datatype event =
    EvTrace trace_level string "trace_arg list"
  | EvAlloc addr
  | EvFree addr
  | EvRef int
  | EvUnref int
  | EvRegMatch "nat option"
  | EvUnregMatch "nat option" cdbus_HResult

text \<open>
  One state for everything outside the function under study:
  \<^item> \<open>registry\<close>: the integer-keyed part of the Lua registry (\<open>LUA_REGISTRYINDEX\<close>);
  \<^item> \<open>live\<close>: the blocks obtained from the allocator and not yet freed; \<open>brk\<close> is the
    next fresh address; the \<open>k\<close>-th allocation request fails when \<open>oom k\<close>; \<open>nreq\<close>
    counts the requests made;
  \<^item> \<open>handlers\<close>: the match handlers registered with the bus client, by handle;
    \<open>reg_accepts\<close> says which rules the client accepts;
  \<^item> \<open>events\<close>: the call log.
\<close>

record world =
  registry :: "(int \<times> lua_value) list"
  live :: "addr multiset"
  brk :: addr
  nreq :: nat
  oom :: "nat \<Rightarrow> bool"
  handlers :: "(nat \<times> cdbus_RegisteredRule) list"
  next_hnd :: nat
  reg_accepts :: "cdbus_RegisteredRule \<Rightarrow> bool"
  events :: "event list"

datatype error = NullDeref | LuaError | AssertFailed | OutOfBounds | DanglingPointer

definition L2DBUS_TRACE :: "world \<Rightarrow> trace_level \<Rightarrow> string \<Rightarrow> trace_arg list \<Rightarrow> world" where
  "L2DBUS_TRACE w lvl fmt args = w\<lparr>events := events w @ [EvTrace lvl fmt args]\<rparr>"

subsection \<open>Allocator\<close>

text \<open>
  Modelled from the spec: \<open>l2dbus_calloc\<close>, \<open>l2dbus_malloc\<close>, \<open>l2dbus_strDup\<close> and
  \<open>l2dbus_free\<close> (\<open>l2dbus_alloc.c\<close> is not among the sources) are the allocator of the C
  library: a request either fails with \<open>NULL\<close> or returns a fresh block; freeing \<open>NULL\<close>
  does nothing; \<open>l2dbus_strDup\<close> copies a C string into a fresh block.
\<close>

definition l2dbus_malloc :: "world \<Rightarrow> addr option \<times> world" where
  "l2dbus_malloc w =
     (if oom w (nreq w) then (None, w\<lparr>nreq := Suc (nreq w)\<rparr>)
      else (Some (brk w),
            w\<lparr>nreq := Suc (nreq w), brk := Suc (brk w), live := add_mset (brk w) (live w),
              events := events w @ [EvAlloc (brk w)]\<rparr>))"

definition l2dbus_calloc :: "world \<Rightarrow> addr option \<times> world" where
  "l2dbus_calloc w = l2dbus_malloc w"

definition l2dbus_strDup :: "world \<Rightarrow> string \<Rightarrow> c_string \<times> world" where
  "l2dbus_strDup w s =
     (case l2dbus_malloc w of
        (None, w') \<Rightarrow> (None, w')
      | (Some a, w') \<Rightarrow> (Some (a, c_str s), w'))"

definition l2dbus_free :: "addr option \<Rightarrow> world \<Rightarrow> world" where
  "l2dbus_free p w =
     (case p of
        None \<Rightarrow> w
      | Some a \<Rightarrow> w\<lparr>live := live w - {#a#}, events := events w @ [EvFree a]\<rparr>)"

subsection \<open>Registry references\<close>

text \<open>
  \<open>luaL_ref\<close> stores a value under an unused positive key and returns the key, or returns
  \<open>LUA_REFNIL\<close> for \<open>nil\<close> without storing anything; \<open>luaL_unref\<close> removes the entry
  of a non-negative key and does nothing for \<open>LUA_NOREF\<close> and \<open>LUA_REFNIL\<close>.
\<close>

definition LUA_NOREF :: int where "LUA_NOREF = - 2"
definition LUA_REFNIL :: int where "LUA_REFNIL = - 1"

definition fresh_ref :: "(int \<times> lua_value) list \<Rightarrow> int" where
  "fresh_ref reg = fold max (map fst reg) 0 + 1"

definition luaL_ref :: "world \<Rightarrow> lua_value \<Rightarrow> int \<times> world" where
  "luaL_ref w v =
     (if v = LNil then (LUA_REFNIL, w\<lparr>events := events w @ [EvRef LUA_REFNIL]\<rparr>)
      else (let r = fresh_ref (registry w)
            in (r, w\<lparr>registry := (r, v) # registry w, events := events w @ [EvRef r]\<rparr>)))"

definition luaL_unref :: "world \<Rightarrow> int \<Rightarrow> world" where
  "luaL_unref w r =
     (if 0 \<le> r
      then w\<lparr>registry := filter (\<lambda>kv. fst kv \<noteq> r) (registry w),
             events := events w @ [EvUnref r]\<rparr>
      else w\<lparr>events := events w @ [EvUnref r]\<rparr>)"

definition registry_get :: "world \<Rightarrow> int \<Rightarrow> lua_value" where
  "registry_get w r = (case map_of (registry w) r of Some v \<Rightarrow> v | None \<Rightarrow> LNil)"

subsection \<open>Bus client\<close>

text \<open>
  The bus client is a library outside the repository.  Registration either returns a fresh
  handle and keeps a copy of the rule, or returns \<open>CDBUS_INVALID_HANDLE\<close> (\<open>None\<close>) and
  keeps nothing.  Unregistration succeeds for a registered handle and fails otherwise.
\<close>

definition rule_copy :: "cdbus_MatchRule \<Rightarrow> cdbus_RegisteredRule" where
  "rule_copy r =
     \<lparr> m_msgType = r_msgType r,
       m_member = map_option snd (r_member r),
       m_objInterface = map_option snd (r_objInterface r),
       m_sender = map_option snd (r_sender r),
       m_path = map_option snd (r_path r),
       m_treatPathAsNamespace = r_treatPathAsNamespace r,
       m_arg0Namespace = map_option snd (r_arg0Namespace r),
       m_eavesdrop = r_eavesdrop r,
       m_filterArgs =
         (case r_filterArgs r of
            None \<Rightarrow> []
          | Some (a, fa) \<Rightarrow>
              map (\<lambda>it. (argType it, argN it, map_option snd (argValue it)))
                (takeWhile (\<lambda>it. argType it \<noteq> CDBUS_FILTER_ARG_INVALID) fa)) \<rparr>"

definition cdbus_connectionRegMatchHandler ::
  "world \<Rightarrow> nat \<Rightarrow> addr \<Rightarrow> cdbus_MatchRule \<Rightarrow> nat option \<times> world" where
  "cdbus_connectionRegMatchHandler w conn ctx rule =
     (if reg_accepts w (rule_copy rule)
      then (Some (next_hnd w),
            w\<lparr>handlers := (next_hnd w, rule_copy rule) # handlers w,
              next_hnd := Suc (next_hnd w),
              events := events w @ [EvRegMatch (Some (next_hnd w))]\<rparr>)
      else (None, w\<lparr>events := events w @ [EvRegMatch None]\<rparr>))"

definition cdbus_connectionUnregMatchHandler ::
  "world \<Rightarrow> nat \<Rightarrow> nat option \<Rightarrow> cdbus_HResult \<times> world" where
  "cdbus_connectionUnregMatchHandler w conn hnd =
     (case hnd of
        None \<Rightarrow> (CDBUS_RESULT_FAILURE,
                 w\<lparr>events := events w @ [EvUnregMatch hnd CDBUS_RESULT_FAILURE]\<rparr>)
      | Some h \<Rightarrow>
          (if h \<in> fst ` set (handlers w)
           then (CDBUS_RESULT_SUCCESS,
                 w\<lparr>handlers := filter (\<lambda>kv. fst kv \<noteq> h) (handlers w),
                   events := events w @ [EvUnregMatch hnd CDBUS_RESULT_SUCCESS]\<rparr>)
           else (CDBUS_RESULT_FAILURE,
                 w\<lparr>events := events w @ [EvUnregMatch hnd CDBUS_RESULT_FAILURE]\<rparr>)))"

definition CDBUS_FAILED :: "cdbus_HResult \<Rightarrow> bool" where
  "CDBUS_FAILED rc = (rc \<noteq> CDBUS_RESULT_SUCCESS)"

section \<open>The match object (\<open>l2dbus_match.c\<close>)\<close>

record l2dbus_CallbackCtx =
  funcRef :: int
  userRef :: int

text \<open>
  The shell of a subscription, as the code uses it: the native handle
  (\<open>CDBUS_INVALID_HANDLE\<close> is \<open>None\<close>), the registry reference of the connection
  userdata, and the callback context.  An \<open>l2dbus_Match*\<close> is \<open>NULL\<close> or the address
  of the block with the structure stored there.
\<close>

record l2dbus_Match =
  matchHnd :: "nat option"
  connRef :: int
  cbCtx :: l2dbus_CallbackCtx

type_synonym match_ptr = "(addr \<times> l2dbus_Match) option"

text \<open>
  Modelled from the spec: \<open>l2dbus_callbackInit\<close>, \<open>l2dbus_callbackRef\<close> and
  \<open>l2dbus_callbackUnref\<close> (\<open>l2dbus_callback.c\<close> is not among the sources).  On
  registration the shell retains ``a strong arena reference to the connection and to the
  handler/user-data pair''; disposal ``releases the arena references for the connection
  and callback pair'': one registry reference for the handler and one for the user data.
\<close>

definition l2dbus_callbackInit :: "l2dbus_CallbackCtx \<Rightarrow> l2dbus_CallbackCtx" where
  "l2dbus_callbackInit ctx = ctx\<lparr>funcRef := LUA_NOREF, userRef := LUA_NOREF\<rparr>"

definition l2dbus_callbackRef ::
  "world \<Rightarrow> lua_value \<Rightarrow> lua_value \<Rightarrow> l2dbus_CallbackCtx \<Rightarrow> l2dbus_CallbackCtx \<times> world" where
  "l2dbus_callbackRef w func user ctx =
     (let (f, w1) = luaL_ref w func;
          (u, w2) = luaL_ref w1 user
      in (ctx\<lparr>funcRef := f, userRef := u\<rparr>, w2))"

definition l2dbus_callbackUnref :: "world \<Rightarrow> l2dbus_CallbackCtx \<Rightarrow> world" where
  "l2dbus_callbackUnref w ctx = luaL_unref (luaL_unref w (funcRef ctx)) (userRef ctx)"

subsection \<open>Dispatch: \<open>l2dbus_matchHandler\<close>\<close>

text \<open>
  A Lua stack is the list of its slots, bottom first; \<open>lua_gettop\<close> is its length.
  What a called Lua value does is a parameter \<open>exec\<close>: given the callee, its arguments
  and the state, it either returns values or raises an error object, and it may change the
  state.  \<open>lua_pcall\<close> removes the callee and its \<open>nargs\<close> arguments from the stack,
  then pushes \<open>nresults\<close> results, or the error object if the call raised; it is applied
  to a stack that holds the callee and the arguments.
\<close>

datatype lua_status = LUA_ERRRUN | LUA_ERRMEM | LUA_ERRERR

datatype call_result = Returned "lua_value list" | Raised lua_status lua_value

type_synonym lua_exec = "lua_value \<Rightarrow> lua_value list \<Rightarrow> world \<Rightarrow> call_result \<times> world"

fun status_code :: "lua_status \<Rightarrow> int" where
  "status_code LUA_ERRRUN = 2"
| "status_code LUA_ERRMEM = 4"
| "status_code LUA_ERRERR = 5"

definition lua_settop :: "lua_value list \<Rightarrow> nat \<Rightarrow> lua_value list" where
  "lua_settop stk n = take n stk @ replicate (n - length stk) LNil"

definition lua_pcall ::
  "lua_exec \<Rightarrow> world \<Rightarrow> lua_value list \<Rightarrow> nat \<Rightarrow> nat \<Rightarrow> int \<times> lua_value list \<times> world" where
  "lua_pcall exec w stk nargs nresults =
     (let base = take (length stk - Suc nargs) stk;
          f = stk ! (length stk - Suc nargs);
          args = drop (length stk - nargs) stk
      in case exec f args w of
           (Returned rs, w') \<Rightarrow> (0, base @ take nresults (rs @ replicate nresults LNil), w')
         | (Raised st e, w') \<Rightarrow> (status_code st, base @ [e], w'))"

text \<open>
  Modelled from the spec: \<open>l2dbus_messageWrap\<close> (\<open>l2dbus_message.c\<close> is not among the
  sources) leaves a Message userdata for the matched message on the stack.
\<close>

definition l2dbus_messageWrap :: "nat \<Rightarrow> lua_value" where
  "l2dbus_messageWrap msg = LUserdata msg"

text \<open>
  \<open>L\<close> is what \<open>l2dbus_callbackGetThread\<close> returns: \<open>None\<close> for \<open>NULL\<close>, else the
  stack of the callback thread.  The result is the thread's stack and the state when the
  function returns.
\<close>

definition l2dbus_matchHandler ::
  "lua_exec \<Rightarrow> platform \<Rightarrow> world \<Rightarrow> lua_value list option \<Rightarrow> nat \<Rightarrow> match_ptr
     \<Rightarrow> error + (lua_value list \<times> world)" where
  "l2dbus_matchHandler exec lib w L msg userData =
     (case L of
        None \<Rightarrow> Inl AssertFailed
      | Some stk \<Rightarrow>
          (case userData of
             None \<Rightarrow> Inr (lua_settop stk 0, w)
           | Some (ma, match) \<Rightarrow>
               (let stk1 = stk @ [registry_get w (funcRef (cbCtx match))];
                    stk2 = stk1 @ [LLightUserdata ma];
                    stk3 = stk2 @ [l2dbus_messageWrap msg];
                    stk4 = stk3 @ [registry_get w (userRef (cbCtx match))];
                    (rc, stk5, w1) = lua_pcall exec w stk4 3 0
                in if rc \<noteq> 0
                   then (let errMsg =
                               (if lua_isstring (last stk5)
                                then (case lua_tostring lib (last stk5) of
                                        Some s \<Rightarrow> c_str s | None \<Rightarrow> [])
                                else []);
                             w2 = L2DBUS_TRACE w1 L2DBUS_TRC_ERROR
                                    ''Match callback error: %s'' [TraceStr errMsg]
                         in Inr (lua_settop stk5 0, w2))
                   else Inr (lua_settop stk5 0, w1))))"

subsection \<open>Freeing a rule: \<open>l2dbus_matchFreeRule\<close>\<close>

definition DBUS_MAXIMUM_MATCH_RULE_ARG_NUMBER :: nat where
  "DBUS_MAXIMUM_MATCH_RULE_ARG_NUMBER = 63"

text \<open>
  The loop reads \<open>filterArgs[idx]\<close> for \<open>idx = 0, ..., 63\<close> until it meets the
  sentinel; a read past the end of the array is the error \<open>OutOfBounds\<close>.
\<close>

function matchFreeRule_loop ::
  "cdbus_FilterArgItem list \<Rightarrow> nat \<Rightarrow> world \<Rightarrow> error + world" where
  "matchFreeRule_loop fa idx w =
     (if idx \<le> DBUS_MAXIMUM_MATCH_RULE_ARG_NUMBER
      then (if length fa \<le> idx then Inl OutOfBounds
            else if CDBUS_FILTER_ARG_INVALID = argType (fa ! idx) then Inr w
            else matchFreeRule_loop fa (Suc idx)
                   (l2dbus_free (map_option fst (argValue (fa ! idx))) w))
      else Inr w)"
  by pat_completeness auto
termination
  by (relation "measure (\<lambda>(fa, idx, w). Suc DBUS_MAXIMUM_MATCH_RULE_ARG_NUMBER - idx)") auto

declare matchFreeRule_loop.simps [simp del]

definition l2dbus_matchFreeRule :: "cdbus_MatchRule option \<Rightarrow> world \<Rightarrow> error + world" where
  "l2dbus_matchFreeRule rule w =
     (case rule of
        None \<Rightarrow> Inr w
      | Some r \<Rightarrow>
          (let w1 = l2dbus_free (map_option fst (r_member r)) w;
               w2 = l2dbus_free (map_option fst (r_objInterface r)) w1;
               w3 = l2dbus_free (map_option fst (r_sender r)) w2;
               w4 = l2dbus_free (map_option fst (r_path r)) w3;
               w5 = l2dbus_free (map_option fst (r_arg0Namespace r)) w4
           in case r_filterArgs r of
                None \<Rightarrow> Inr w5
              | Some (a, fa) \<Rightarrow>
                  (case matchFreeRule_loop fa 0 w5 of
                     Inl e \<Rightarrow> Inl e
                   | Inr w6 \<Rightarrow> Inr (l2dbus_free (Some a) w6))))"

subsection \<open>Building and registering a rule: \<open>l2dbus_newMatch\<close>\<close>

text \<open>
  The function reads the criteria table through the Lua stack and leaves the stack as it
  found it on every path (each \<open>lua_getfield\<close> is popped, the loop's leftovers are
  cut by \<open>lua_settop(L, top)\<close>), so the model passes the values at \<open>ruleIdx\<close>,
  \<open>funcIdx\<close>, \<open>userIdx\<close> and \<open>connIdx\<close> instead of the indices.
\<close>

definition DBUS_MESSAGE_TYPE_METHOD_CALL :: int where "DBUS_MESSAGE_TYPE_METHOD_CALL = 1"
definition DBUS_MESSAGE_TYPE_METHOD_RETURN :: int where "DBUS_MESSAGE_TYPE_METHOD_RETURN = 2"
definition DBUS_MESSAGE_TYPE_ERROR :: int where "DBUS_MESSAGE_TYPE_ERROR = 3"
definition DBUS_MESSAGE_TYPE_SIGNAL :: int where "DBUS_MESSAGE_TYPE_SIGNAL = 4"

definition newMatch_msgType :: "platform \<Rightarrow> lua_value \<Rightarrow> cdbus_MatchMsgType" where
  "newMatch_msgType lib v =
     (if \<not> lua_isnumber lib v then CDBUS_MATCH_MSG_ANY
      else (let t = lua_tointeger lib v
            in if t = DBUS_MESSAGE_TYPE_METHOD_CALL then CDBUS_MATCH_MSG_METHOD_CALL
               else if t = DBUS_MESSAGE_TYPE_METHOD_RETURN then CDBUS_MATCH_MSG_METHOD_RETURN
               else if t = DBUS_MESSAGE_TYPE_ERROR then CDBUS_MATCH_MSG_ERROR
               else if t = DBUS_MESSAGE_TYPE_SIGNAL then CDBUS_MATCH_MSG_SIGNAL
               else CDBUS_MATCH_MSG_ANY))"

text \<open>The pattern the code repeats for \<open>member\<close>, \<open>interface\<close>, \<open>sender\<close>, \<open>path\<close>
  and \<open>arg0Namespace\<close>: duplicate the field if it is a string, else \<open>NULL\<close>.\<close>

definition newMatch_strField :: "platform \<Rightarrow> world \<Rightarrow> lua_value \<Rightarrow> c_string \<times> world" where
  "newMatch_strField lib w v =
     (if lua_isstring v
      then (case lua_tostring lib v of
              Some s \<Rightarrow> l2dbus_strDup w s
            | None \<Rightarrow> (None, w))
      else (None, w))"

text \<open>The pattern for \<open>treatPathAsNamespace\<close> and \<open>eavesdrop\<close>.\<close>

definition newMatch_boolField :: "lua_value \<Rightarrow> bool" where
  "newMatch_boolField v = (if lua_isboolean v then lua_toboolean v else False)"

text \<open>The type tag of one filter element (the \<open>type\<close> field).\<close>

definition newMatch_argType :: "platform \<Rightarrow> lua_value \<Rightarrow> cdbus_FilterArgType" where
  "newMatch_argType lib ty =
     (if lua_isstring ty
      then (case lua_tostring lib ty of
              Some s \<Rightarrow>
                (if c_str s = ''string'' then CDBUS_FILTER_ARG
                 else if c_str s = ''path'' then CDBUS_FILTER_ARG_PATH
                 else CDBUS_FILTER_ARG_INVALID)
            | None \<Rightarrow> CDBUS_FILTER_ARG_INVALID)
      else if lua_isnil ty then CDBUS_FILTER_ARG
      else CDBUS_FILTER_ARG_INVALID)"

definition reason_not_table :: string where
  "reason_not_table = ''argN table expected''"
definition reason_bad_type :: string where
  "reason_bad_type =
     ''unknown argument type specified (!= '' @ [CHR 0x27] @ ''path'' @ [CHR 0x27] @
     '' or '' @ [CHR 0x27] @ ''string'' @ [CHR 0x27] @ '')''"
definition reason_no_index :: string where
  "reason_no_index = ''arg filter index not specified''"
definition reason_index_range :: string where
  "reason_index_range = ''arg filter index out of range''"
definition reason_no_value :: string where
  "reason_no_value = ''arg filter missing a value''"
definition reason_alloc_args :: string where
  "reason_alloc_args = ''failed to allocate memory for argN filter elements''"
definition reason_alloc_match :: string where
  "reason_alloc_match = ''failed to allocate memory for match object''"
definition reason_register :: string where
  "reason_register = ''failed to register match handler''"

text \<open>
  The loop over the filter elements.  It returns the \<open>failed\<close> flag, the reason, the value
  of \<open>idx\<close> when the loop is left, the array and the state.  The array has
  \<open>nFilterArgs + 1\<close> elements, so every \<open>filterArgs[idx]\<close> of the loop is in range.
  \<open>lua_tostring\<close> cannot return \<open>NULL\<close> after \<open>lua_isstring\<close> held; the branch for
  \<open>None\<close> is there only because the model's \<open>lua_tostring\<close> returns an option.
\<close>

function newMatch_argLoop ::
  "platform \<Rightarrow> lua_value \<Rightarrow> nat \<Rightarrow> nat \<Rightarrow> cdbus_FilterArgItem list \<Rightarrow> world
     \<Rightarrow> bool \<times> string \<times> nat \<times> cdbus_FilterArgItem list \<times> world" where
  "newMatch_argLoop lib tbl nFilterArgs idx fa w =
     (if idx < nFilterArgs
      then (let item = lua_rawgeti tbl (int idx + 1)
            in if \<not> lua_istable item then (True, reason_not_table, idx, fa, w)
               else (let ty = newMatch_argType lib (lua_getfield item ''type'')
                     in if ty \<noteq> CDBUS_FILTER_ARG \<and> ty \<noteq> CDBUS_FILTER_ARG_PATH
                        then (True, reason_bad_type, idx, fa, w)
                        else (let fa1 = fa[idx := (fa ! idx)\<lparr>argType := ty\<rparr>];
                                  ix = lua_getfield item ''index''
                              in if \<not> lua_isnumber lib ix
                                 then (True, reason_no_index, idx, fa1, w)
                                 else (let fa2 = fa1[idx := (fa1 ! idx)\<lparr>argN := argN_store lib (lua_tointeger lib ix)\<rparr>]
                                       in if 0 > argN (fa2 ! idx) \<or>
                                              int DBUS_MAXIMUM_MATCH_RULE_ARG_NUMBER < argN (fa2 ! idx)
                                          then (True, reason_index_range, idx, fa2, w)
                                          else (let v = lua_getfield item ''value''
                                                in if \<not> lua_isstring v
                                                   then (True, reason_no_value, idx, fa2, w)
                                                   else (case lua_tostring lib v of
                                                           None \<Rightarrow> (True, reason_no_value, idx, fa2, w)
                                                         | Some s \<Rightarrow>
                                                             (let (p, w1) = l2dbus_strDup w s;
                                                                  fa3 = fa2[idx := (fa2 ! idx)\<lparr>argValue := p\<rparr>]
                                                              in newMatch_argLoop lib tbl nFilterArgs
                                                                   (Suc idx) fa3 w1)))))))
      else (False, [], idx, fa, w))"
  by pat_completeness auto
termination
  by (relation "measure (\<lambda>(lib, tbl, n, idx, fa, w). n - idx)") auto

declare newMatch_argLoop.simps [simp del]

text \<open>An element of the array as \<open>l2dbus_calloc\<close> leaves it: all bytes zero.\<close>

definition zero_item :: cdbus_FilterArgItem where
  "zero_item = \<lparr>argType = CDBUS_FILTER_ARG_INVALID, argN = 0, argValue = None\<rparr>"

text \<open>The \<open>filterArgs\<close> field: the array is built only for a table with a positive length,
  and only its first 64 elements are read.\<close>

definition newMatch_filterArgs ::
  "platform \<Rightarrow> world \<Rightarrow> lua_value
     \<Rightarrow> bool \<times> string \<times> (addr \<times> cdbus_FilterArgItem list) option \<times> world" where
  "newMatch_filterArgs lib w v =
     (if lua_istable v
      then (let nFilterArgs0 = lua_rawlen v
            in if nFilterArgs0 > 0
               then (let nFilterArgs =
                           (if nFilterArgs0 > DBUS_MAXIMUM_MATCH_RULE_ARG_NUMBER + 1
                            then DBUS_MAXIMUM_MATCH_RULE_ARG_NUMBER + 1 else nFilterArgs0)
                     in case l2dbus_calloc w of
                          (None, w1) \<Rightarrow> (True, reason_alloc_args, None, w1)
                        | (Some a, w1) \<Rightarrow>
                            (let (failed, reason, idx, fa, w2) =
                                   newMatch_argLoop lib v nFilterArgs 0
                                     (replicate (nFilterArgs + 1) zero_item) w1
                             in (failed, reason,
                                 Some (a, fa[idx := (fa ! idx)\<lparr>argType := CDBUS_FILTER_ARG_INVALID\<rparr>]),
                                 w2)))
               else (False, [], None, w))
      else (False, [], None, w))"

text \<open>The first part of \<open>l2dbus_newMatch\<close>: the rule filled in from the criteria table.\<close>

definition newMatch_build ::
  "platform \<Rightarrow> world \<Rightarrow> lua_value \<Rightarrow> bool \<times> string \<times> cdbus_MatchRule \<times> world" where
  "newMatch_build lib w rule =
     (let w0 = L2DBUS_TRACE w L2DBUS_TRC_TRACE ''Create: match'' [];
          mt = newMatch_msgType lib (lua_getfield rule ''msgType'');
          (member, w1) = newMatch_strField lib w0 (lua_getfield rule ''member'');
          (iface, w2) = newMatch_strField lib w1 (lua_getfield rule ''interface'');
          (sender, w3) = newMatch_strField lib w2 (lua_getfield rule ''sender'');
          (path, w4) = newMatch_strField lib w3 (lua_getfield rule ''path'');
          tpan = newMatch_boolField (lua_getfield rule ''treatPathAsNamespace'');
          (arg0, w5) = newMatch_strField lib w4 (lua_getfield rule ''arg0Namespace'');
          eaves = newMatch_boolField (lua_getfield rule ''eavesdrop'');
          (failed, reason, fargs, w6) = newMatch_filterArgs lib w5 (lua_getfield rule ''filterArgs'')
      in (failed, reason,
          \<lparr> r_msgType = mt, r_member = member, r_objInterface = iface, r_sender = sender,
            r_path = path, r_treatPathAsNamespace = tpan, r_arg0Namespace = arg0,
            r_eavesdrop = eaves, r_filterArgs = fargs \<rparr>,
          w6))"

text \<open>The second part: the shell, the native registration, the references.\<close>

definition zero_match :: l2dbus_Match where
  "zero_match = \<lparr>matchHnd = None, connRef = 0, cbCtx = \<lparr>funcRef = 0, userRef = 0\<rparr>\<rparr>"

definition newMatch_register ::
  "world \<Rightarrow> lua_value \<Rightarrow> lua_value \<Rightarrow> lua_value \<Rightarrow> cdbus_MatchRule
     \<Rightarrow> error + (bool \<times> string \<times> match_ptr \<times> world)" where
  "newMatch_register w func user conn rule =
     (case l2dbus_calloc w of
        (None, w1) \<Rightarrow> Inr (True, reason_alloc_match, None, w1)
      | (Some ma, w1) \<Rightarrow>
          (case lua_touserdata conn of
             None \<Rightarrow> Inl NullDeref
           | Some connUd \<Rightarrow>
               (case cdbus_connectionRegMatchHandler w1 connUd ma rule of
                  (None, w2) \<Rightarrow>
                    Inr (True, reason_register, Some (ma, zero_match\<lparr>matchHnd := None\<rparr>), w2)
                | (Some h, w2) \<Rightarrow>
                    (let (cr, w3) = luaL_ref w2 conn;
                         m1 = zero_match\<lparr>matchHnd := Some h, connRef := cr\<rparr>;
                         (cb, w4) = l2dbus_callbackRef w3 func user
                                      (l2dbus_callbackInit (cbCtx m1))
                     in Inr (False, [], Some (ma, m1\<lparr>cbCtx := cb\<rparr>), w4)))))"

text \<open>
  The function up to the point where \<open>errMsg\<close> is written: the \<open>failed\<close> flag, the
  reason, the shell, the rule and the state.  A criteria value that is not a table makes
  the first \<open>lua_getfield\<close> raise a Lua error.
\<close>

definition newMatch_run ::
  "platform \<Rightarrow> world \<Rightarrow> lua_value \<Rightarrow> lua_value \<Rightarrow> lua_value \<Rightarrow> lua_value
     \<Rightarrow> error + (bool \<times> string \<times> match_ptr \<times> cdbus_MatchRule \<times> world)" where
  "newMatch_run lib w ruleV func user conn =
     (if \<not> lua_istable ruleV then Inl LuaError
      else (let (failed0, reason0, rule, w1) = newMatch_build lib w ruleV
            in if \<not> failed0
               then (case newMatch_register w1 func user conn rule of
                       Inl e \<Rightarrow> Inl e
                     | Inr (failed, reason, match, w2) \<Rightarrow> Inr (failed, reason, match, rule, w2))
               else Inr (failed0, reason0, None, rule, w1)))"

text \<open>
  The whole function.  \<open>errMsg\<close> is the out-parameter: \<open>None\<close> for a \<open>NULL\<close> pointer,
  \<open>Some None\<close> for a pointer to a \<open>NULL\<close> string, \<open>Some (Some s)\<close> for a pointer to the
  string \<open>s\<close>.  The result is the returned pointer, the string \<open>errMsg\<close> points to
  afterwards, and the state.
\<close>

definition l2dbus_newMatch ::
  "platform \<Rightarrow> world \<Rightarrow> lua_value \<Rightarrow> lua_value \<Rightarrow> lua_value \<Rightarrow> lua_value \<Rightarrow> string option option
     \<Rightarrow> error + (match_ptr \<times> string option \<times> world)" where
  "l2dbus_newMatch lib w ruleV func user conn errMsg =
     (case newMatch_run lib w ruleV func user conn of
        Inl e \<Rightarrow> Inl e
      | Inr (failed, reason, match, rule, w2) \<Rightarrow>
          (case errMsg of
             None \<Rightarrow> Inl NullDeref
           | Some e \<Rightarrow>
               (let e' = (if e \<noteq> None then Some reason else e);
                    (match', w3) =
                      (if failed then (None, l2dbus_free (map_option fst match) w2)
                       else (match, w2))
                in case l2dbus_matchFreeRule (Some rule) w3 of
                     Inl er \<Rightarrow> Inl er
                   | Inr w4 \<Rightarrow> Inr (match', e', w4))))"

subsection \<open>Disposal: \<open>l2dbus_disposeMatch\<close>\<close>

definition l2dbus_disposeMatch :: "world \<Rightarrow> match_ptr \<Rightarrow> error + world" where
  "l2dbus_disposeMatch w match =
     (case match of
        None \<Rightarrow> Inr w
      | Some (ma, m) \<Rightarrow>
          (case lua_touserdata (registry_get w (connRef m)) of
             None \<Rightarrow> Inl NullDeref
           | Some connUd \<Rightarrow>
               (let (rc, w1) = cdbus_connectionUnregMatchHandler w connUd (matchHnd m);
                    w2 = (if CDBUS_FAILED rc
                          then L2DBUS_TRACE w1 L2DBUS_TRC_WARN
                                 ''Failed to unregister match (0x%x)'' [TraceHResult rc]
                          else w1);
                    w3 = l2dbus_callbackUnref w2 (cbCtx m);
                    w4 = luaL_unref w3 (connRef m);
                    w5 = l2dbus_free (Some ma) w4
                in Inr w5)))"

section \<open>The reference list (\<open>l2dbus_reflist.c\<close>)\<close>

text \<open>
  The list is the intrusive \<open>LIST\<close> of \<open>sys/queue.h\<close>; it is modelled by the sequence of
  its items from \<open>LIST_FIRST\<close> on.  An item is a heap block holding a registry reference.
  A pointer to an item is \<open>NULL\<close> (\<open>LIST_END\<close>) or the item's address.  A \<open>lua_State*\<close>
  is \<open>NULL\<close> or refers to the interpreter, whose registry is part of the state.
\<close>

record l2dbus_RefItem =
  item_addr :: addr
  refIdx :: int

type_synonym l2dbus_RefList = "l2dbus_RefItem list"

datatype lua_State = LuaState

record l2dbus_RefListIter =
  iter_cur :: "addr option"
  iter_next :: "addr option"

fun LIST_FIRST :: "l2dbus_RefList \<Rightarrow> addr option" where
  "LIST_FIRST [] = None"
| "LIST_FIRST (x # xs) = Some (item_addr x)"

text \<open>\<open>LIST_NEXT(elm, link)\<close> reads \<open>elm->link.le_next\<close>: it dereferences \<open>elm\<close>.\<close>

fun LIST_NEXT :: "l2dbus_RefList \<Rightarrow> addr option \<Rightarrow> error + addr option" where
  "LIST_NEXT xs None = Inl NullDeref"
| "LIST_NEXT xs (Some a) =
     (case dropWhile (\<lambda>x. item_addr x \<noteq> a) xs of
        [] \<Rightarrow> Inl DanglingPointer
      | x # rest \<Rightarrow> Inr (LIST_FIRST rest))"

fun refListUnref_loop ::
  "l2dbus_RefItem list \<Rightarrow> int \<Rightarrow> world \<Rightarrow> bool \<times> l2dbus_RefItem list \<times> world" where
  "refListUnref_loop [] ref w = (False, [], w)"
| "refListUnref_loop (item # rest) ref w =
     (if ref = refIdx item
      then (False, rest, l2dbus_free (Some (item_addr item)) (luaL_unref w (refIdx item)))
      else (let (status, rest', w') = refListUnref_loop rest ref w
            in (status, item # rest', w')))"

definition l2dbus_refListUnref ::
  "world \<Rightarrow> l2dbus_RefList option \<Rightarrow> lua_State option \<Rightarrow> int
     \<Rightarrow> bool \<times> l2dbus_RefList option \<times> world" where
  "l2dbus_refListUnref w refList L ref =
     (case (L, refList) of
        (Some l, Some xs) \<Rightarrow>
          (let (status, xs', w') = refListUnref_loop xs ref w in (status, Some xs', w'))
      | _ \<Rightarrow> (False, refList, w))"

definition l2dbus_refListIterInit ::
  "l2dbus_RefList option \<Rightarrow> l2dbus_RefListIter option \<Rightarrow> error + l2dbus_RefListIter option" where
  "l2dbus_refListIterInit refList iter =
     (case (refList, iter) of
        (Some xs, Some it) \<Rightarrow>
          (let it1 = it\<lparr>iter_cur := LIST_FIRST xs\<rparr>
           in case LIST_NEXT xs (iter_cur it1) of
                Inl e \<Rightarrow> Inl e
              | Inr n \<Rightarrow> Inr (Some (it1\<lparr>iter_next := n\<rparr>)))
      | _ \<Rightarrow> Inr iter)"

section \<open>The Int64 power metamethod (\<open>l2dbus_int64.c\<close>)\<close>

text \<open>
  \<open>int64_t\<close> is a 64-bit word read as two's complement; multiplication wraps around and
  \<open>>>\<close> on the signed exponent is the arithmetic shift.  The operands are the values
  \<open>l2dbus_int64Cast\<close> yields; the result is the value stored in the new userdata, or
  \<open>None\<close> if the loop does not end.
\<close>

type_synonym int64_t = "64 word"

partial_function (option) int64Power_loop ::
  "int64_t \<Rightarrow> int64_t \<Rightarrow> int64_t \<Rightarrow> int64_t option" where
  "int64Power_loop base exp result =
     (if exp \<noteq> 0
      then int64Power_loop (base * base) (signed_drop_bit 1 exp)
             (if exp AND 1 = 1 then result * base else result)
      else Some result)"

definition l2dbus_int64Power :: "int64_t \<Rightarrow> int64_t \<Rightarrow> int64_t option" where
  "l2dbus_int64Power base exp =
     (if 0 > sint exp then Some 0 else int64Power_loop base exp 1)"

section \<open>Notions used in the statements\<close>

text \<open>The arguments the trampoline passes to the handler: the subscription (as a light
  userdata), the wrapped message, the user data.\<close>

definition handler_args :: "world \<Rightarrow> nat \<Rightarrow> addr \<Rightarrow> l2dbus_Match \<Rightarrow> lua_value list" where
  "handler_args w msg ma m =
     [LLightUserdata ma, l2dbus_messageWrap msg, registry_get w (userRef (cbCtx m))]"

text \<open>The text the trampoline logs for an error object: its string form, empty if it has
  none.\<close>

definition error_text :: "platform \<Rightarrow> lua_value \<Rightarrow> string" where
  "error_text lib e = (case lua_tostring lib e of Some s \<Rightarrow> c_str s | None \<Rightarrow> [])"

text \<open>What the bus client answers to an unregistration of \<open>hnd\<close> in state \<open>w\<close>.\<close>

definition unreg_result :: "world \<Rightarrow> nat option \<Rightarrow> cdbus_HResult" where
  "unreg_result w hnd =
     (case hnd of
        None \<Rightarrow> CDBUS_RESULT_FAILURE
      | Some h \<Rightarrow>
          if h \<in> fst ` set (handlers w) then CDBUS_RESULT_SUCCESS else CDBUS_RESULT_FAILURE)"

text \<open>Only the allocator's part of the state differs between \<open>w\<close> and \<open>w'\<close>.\<close>

definition alloc_only :: "world \<Rightarrow> world \<Rightarrow> bool" where
  "alloc_only w w' =
     (registry w' = registry w \<and> handlers w' = handlers w \<and> next_hnd w' = next_hnd w \<and>
      reg_accepts w' = reg_accepts w \<and> oom w' = oom w)"

text \<open>The blocks behind a pointer, and behind the values of a list of filter items.\<close>

definition opt_block :: "addr option \<Rightarrow> addr multiset" where
  "opt_block p = (case p of None \<Rightarrow> {#} | Some a \<Rightarrow> {#a#})"

fun item_blocks :: "cdbus_FilterArgItem list \<Rightarrow> addr multiset" where
  "item_blocks [] = {#}"
| "item_blocks (it # its) = opt_block (map_option fst (argValue it)) + item_blocks its"

text \<open>
  The shape of a filter array with \<open>k\<close> items: \<open>k \<le> 64\<close> valid items, followed by the
  sentinel unless \<open>k = 64\<close>.
\<close>

definition filter_shape :: "cdbus_FilterArgItem list \<Rightarrow> nat \<Rightarrow> bool" where
  "filter_shape fa k =
     (k \<le> 64 \<and> k \<le> length fa \<and>
      (\<forall>i<k. argType (fa ! i) \<noteq> CDBUS_FILTER_ARG_INVALID) \<and>
      (k < 64 \<longrightarrow> k < length fa \<and> argType (fa ! k) = CDBUS_FILTER_ARG_INVALID))"

text \<open>
  A type tag is acceptable when it is absent, or reads as the C string \<open>string\<close> or
  \<open>path\<close>.
\<close>

definition type_tag_ok :: "platform \<Rightarrow> lua_value \<Rightarrow> bool" where
  "type_tag_ok lib ty =
     (case lua_tostring lib ty of
        Some s \<Rightarrow> c_str s = ''string'' \<or> c_str s = ''path''
      | None \<Rightarrow> ty = LNil)"

text \<open>
  A defective element of the filter list: not a table, or with an unacceptable type tag,
  or with an index that is not a number or lies outside \<open>[0, 63]\<close>, or with a value that
  is not a string.
\<close>

definition bad_element :: "platform \<Rightarrow> lua_value \<Rightarrow> bool" where
  "bad_element lib e =
     (\<not> lua_istable e \<or>
      \<not> type_tag_ok lib (lua_getfield e ''type'') \<or>
      \<not> lua_isnumber lib (lua_getfield e ''index'') \<or>
      argN_store lib (lua_tointeger lib (lua_getfield e ''index'')) < 0 \<or>
      63 < argN_store lib (lua_tointeger lib (lua_getfield e ''index'')) \<or>
      \<not> lua_isstring (lua_getfield e ''value''))"

text \<open>The reason reported for a defective element: that of the first check it fails.\<close>

definition element_reason :: "platform \<Rightarrow> lua_value \<Rightarrow> string" where
  "element_reason lib e =
     (if \<not> lua_istable e then reason_not_table
      else if \<not> type_tag_ok lib (lua_getfield e ''type'') then reason_bad_type
      else if \<not> lua_isnumber lib (lua_getfield e ''index'') then reason_no_index
      else if argN_store lib (lua_tointeger lib (lua_getfield e ''index'')) < 0 \<or>
              63 < argN_store lib (lua_tointeger lib (lua_getfield e ''index'')) then reason_index_range
      else reason_no_value)"

text \<open>
  The number of allocation requests \<open>l2dbus_newMatch\<close> makes before it asks for the filter
  array: one for each of the five string fields that is a string.
\<close>

definition str_requests :: "lua_value \<Rightarrow> nat" where
  "str_requests rule =
     length (filter (\<lambda>k. lua_isstring (lua_getfield rule k))
               [''member'', ''interface'', ''sender'', ''path'', ''arg0Namespace''])"

text \<open>A criteria table without its \<open>filterArgs\<close> field.\<close>

fun without_filterArgs :: "lua_value \<Rightarrow> lua_value" where
  "without_filterArgs (LTable fs arr) = LTable (filter (\<lambda>kv. fst kv \<noteq> ''filterArgs'') fs) arr"
| "without_filterArgs v = v"

text \<open>What an element that is not defective contributes to the registered rule.\<close>

definition filter_of :: "platform \<Rightarrow> lua_value \<Rightarrow> cdbus_FilterArgType \<times> int \<times> string option" where
  "filter_of lib e =
     (newMatch_argType lib (lua_getfield e ''type''),
      argN_store lib (lua_tointeger lib (lua_getfield e ''index'')),
      map_option c_str (lua_tostring lib (lua_getfield e ''value'')))"

text \<open>The blocks a rule owns when its filter array has \<open>k\<close> items, and the shape of
  its filter array.\<close>

definition rule_blocks :: "cdbus_MatchRule \<Rightarrow> nat \<Rightarrow> addr multiset" where
  "rule_blocks r k =
     opt_block (map_option fst (r_member r)) + opt_block (map_option fst (r_objInterface r)) +
     opt_block (map_option fst (r_sender r)) + opt_block (map_option fst (r_path r)) +
     opt_block (map_option fst (r_arg0Namespace r)) +
     (case r_filterArgs r of None \<Rightarrow> {#} | Some (a, fa) \<Rightarrow> {#a#} + item_blocks (take k fa))"

definition rule_shape :: "cdbus_MatchRule \<Rightarrow> nat \<Rightarrow> bool" where
  "rule_shape r k = (case r_filterArgs r of None \<Rightarrow> True | Some (a, fa) \<Rightarrow> filter_shape fa k)"

text \<open>A filter item as the bus client copies it.\<close>

definition item_view :: "cdbus_FilterArgItem \<Rightarrow> cdbus_FilterArgType \<times> int \<times> string option" where
  "item_view it = (argType it, argN it, map_option snd (argValue it))"

section \<open>Concrete states and inputs\<close>

definition world0 :: world where
  "world0 = \<lparr> registry = [], live = {#}, brk = 0, nreq = 0, oom = (\<lambda>k. False),
              handlers = [], next_hnd = 0, reg_accepts = (\<lambda>r. True), events = [] \<rparr>"

definition lib0 :: platform where
  "lib0 = \<lparr> number2str = (\<lambda>n. ''0''), str2number = (\<lambda>s. None), argN_store = (\<lambda>n. n) \<rparr>"

definition refs0 :: l2dbus_RefList where
  "refs0 = [\<lparr>item_addr = 10, refIdx = 1\<rparr>, \<lparr>item_addr = 11, refIdx = 2\<rparr>]"

definition exec_fail :: lua_exec where
  "exec_fail f args w = (Raised LUA_ERRRUN (LString ''boom''), w)"

definition match0 :: l2dbus_Match where
  "match0 = \<lparr>matchHnd = Some 0, connRef = 1, cbCtx = \<lparr>funcRef = 2, userRef = 3\<rparr>\<rparr>"

text \<open>A state in which \<open>match0\<close> is a live subscription: its three references are in the
  registry, its block is live, its handle is not known to the bus client any more.\<close>

definition world1 :: world where
  "world1 = world0\<lparr> registry := [(3, LNumber 42), (2, LFunction 0), (1, LUserdata 9)],
                    live := {#5#}, brk := 6 \<rparr>"

text \<open>Criteria tables: two filter elements with the same index; a \<open>filterArgs\<close> field that
  is a number; 65 filter elements with the indices 0 to 64; a second element with the index
  64; no filter elements.  A connection userdata, and a bus client that rejects every
  rule.\<close>

definition filter_elt :: "int \<Rightarrow> string \<Rightarrow> lua_value" where
  "filter_elt i v = LTable [(''index'', LNumber i), (''value'', LString v)] []"

definition rule_dup :: lua_value where
  "rule_dup = LTable [(''filterArgs'', LTable [] [filter_elt 0 ''a'', filter_elt 0 ''b''])] []"

definition rule_notseq :: lua_value where
  "rule_notseq = LTable [(''filterArgs'', LNumber 5)] []"

definition conn0 :: lua_value where
  "conn0 = LUserdata 9"

definition rule_65 :: lua_value where
  "rule_65 = LTable [(''filterArgs'',
                      LTable [] (map (\<lambda>k. filter_elt (int k) ''v'') [0..<65]))] []"

definition rule_badidx :: lua_value where
  "rule_badidx = LTable [(''filterArgs'', LTable [] [filter_elt 0 ''a'', filter_elt 64 ''b''])] []"

definition rule_plain :: lua_value where
  "rule_plain = LTable [(''member'', LString ''Changed'')] []"

definition world_rej :: world where
  "world_rej = world0\<lparr>reg_accepts := (\<lambda>r. False)\<rparr>"

section \<open>Properties of the Int64 power\<close>

lemma and_one_odd: "(e AND 1 = 1) = odd (sint (e::int64_t))"
  apply (simp add: and_one_eq)
  apply (simp add: bit_0[symmetric] bit_sint_iff)
  apply (simp add: bit_0 odd_iff_mod_2_eq_one)
  done

lemma sint_pos: "e \<noteq> 0 \<Longrightarrow> 0 \<le> sint (e::int64_t) \<Longrightarrow> 0 < sint e"
  by (metis abs_of_nonneg signed_0 word_eq_iff_signed zero_less_abs_iff)

lemma int64Power_loop_result:
  "0 \<le> sint e \<Longrightarrow> nat (sint e) = n \<Longrightarrow> int64Power_loop b e r = Some (r * b ^ n)"
proof (induction n arbitrary: b e r rule: less_induct)
  case (less n)
  show ?case
  proof (cases "e = 0")
    case True
    with less.prems show ?thesis by (subst int64Power_loop.simps) simp
  next
    case False
    let ?e' = "signed_drop_bit 1 e"
    let ?m = "nat (sint ?e')"
    have pos: "0 < sint e" using False less.prems(1) by (rule sint_pos)
    have half: "sint ?e' = sint e div 2"
      by (simp add: sint_signed_drop_bit_eq drop_bit_eq_div)
    have lt: "?m < n" using pos half less.prems(2) by linarith
    have ge: "0 \<le> sint ?e'" using pos half by simp
    have ih: "int64Power_loop (b * b) ?e' r' = Some (r' * (b * b) ^ ?m)" for r'
      using less.IH[OF lt ge refl] .
    have sq: "(b * b) ^ ?m = b ^ (2 * ?m)"
      by (simp add: power_mult power2_eq_square)
    show ?thesis
    proof (cases "odd (sint e)")
      case True
      have n2: "n = Suc (2 * ?m)"
        using pos half less.prems(2) True by (auto elim!: oddE)
      have "int64Power_loop b e r = int64Power_loop (b * b) ?e' (r * b)"
        by (subst int64Power_loop.simps) (simp add: False and_one_odd True)
      also have "\<dots> = Some (r * b * b ^ (2 * ?m))" by (simp only: ih sq)
      finally show ?thesis by (simp add: n2 mult.assoc)
    next
      case even: False
      have n2: "n = 2 * ?m"
        using pos half less.prems(2) even by (auto elim!: evenE)
      have "int64Power_loop b e r = int64Power_loop (b * b) ?e' r"
        by (subst int64Power_loop.simps) (simp add: False and_one_odd even)
      also have "\<dots> = Some (r * b ^ (2 * ?m))" by (simp only: ih sq)
      finally show ?thesis by (simp add: n2)
    qed
  qed
qed

text \<open>
  C10.  For every base \<open>a\<close> and exponent \<open>e\<close> the power metamethod returns: the result is
  \<open>0\<close> when \<open>e < 0\<close>, and \<open>a ^ e\<close> reduced modulo \<open>2 ^ 64\<close> when \<open>e \<ge> 0\<close>
  (\<open>word_of_int\<close> is the reduction of an integer to 64 bits).
\<close>

theorem int64Power_value:
  "l2dbus_int64Power a e =
     Some (if sint e < 0 then 0 else word_of_int (sint a ^ nat (sint e)))"
  by (simp add: l2dbus_int64Power_def int64Power_loop_result[OF _ refl]
        word_of_int_power_hom[symmetric] del: word_of_int_power_hom)

theorem int64Power_value_witness:
  "l2dbus_int64Power 3 4 = Some 81 \<and> l2dbus_int64Power 2 64 = Some 0 \<and>
   l2dbus_int64Power 2 (- 1) = Some 0 \<and> l2dbus_int64Power (- 2) 3 = Some (- 8)"
  using int64Power_value[of 3 4] int64Power_value[of 2 64] int64Power_value[of 2 "- 1"]
    int64Power_value[of "- 2" 3]
  by simp

section \<open>Properties of the reference list\<close>

lemma refListUnref_loop_status: "fst (refListUnref_loop xs ref w) = False"
  by (induction xs) (auto split: prod.splits)

lemma refListUnref_loop_absent:
  "ref \<notin> refIdx ` set xs \<Longrightarrow> refListUnref_loop xs ref w = (False, xs, w)"
  by (induction xs) auto

lemma refListUnref_loop_present:
  "ref \<in> refIdx ` set xs \<Longrightarrow> length (fst (snd (refListUnref_loop xs ref w))) < length xs"
  by (induction xs) (auto split: prod.splits)

text \<open>
  C3.  For every reference list and every token: when the token is not in the list,
  \<open>l2dbus_refListUnref\<close> leaves the list and the state unchanged; when it is in the
  list (and \<open>L\<close> is not \<open>NULL\<close>), an item is removed; and in every case the boolean
  returned is \<open>L2DBUS_FALSE\<close>, so the result does not tell the two outcomes apart.
\<close>

theorem refListUnref_result_ambiguous:
  "(ref \<notin> refIdx ` set xs \<longrightarrow> l2dbus_refListUnref w (Some xs) L ref = (False, Some xs, w)) \<and>
   (ref \<in> refIdx ` set xs \<longrightarrow>
      (\<exists>xs' w'. l2dbus_refListUnref w (Some xs) (Some LuaState) ref = (False, Some xs', w') \<and>
                length xs' < length xs)) \<and>
   fst (l2dbus_refListUnref w refList L ref) = False"
proof (intro conjI impI)
  assume "ref \<notin> refIdx ` set xs"
  then show "l2dbus_refListUnref w (Some xs) L ref = (False, Some xs, w)"
    by (cases L) (simp_all add: l2dbus_refListUnref_def refListUnref_loop_absent)
next
  assume a: "ref \<in> refIdx ` set xs"
  obtain s xs' w' where r: "refListUnref_loop xs ref w = (s, xs', w')"
    by (cases "refListUnref_loop xs ref w") auto
  have "s = False" using refListUnref_loop_status[of xs ref w] r by simp
  moreover have "length xs' < length xs" using refListUnref_loop_present[OF a, of w] r by simp
  ultimately show "\<exists>xs' w'. l2dbus_refListUnref w (Some xs) (Some LuaState) ref = (False, Some xs', w') \<and>
                length xs' < length xs"
    by (simp add: l2dbus_refListUnref_def r)
next
  show "fst (l2dbus_refListUnref w refList L ref) = False"
  proof (cases L; cases refList)
    fix l ys assume "L = Some l" "refList = Some ys"
    then show ?thesis
      using refListUnref_loop_status[of ys ref w]
      by (cases "refListUnref_loop ys ref w") (simp add: l2dbus_refListUnref_def)
  qed (simp_all add: l2dbus_refListUnref_def)
qed

theorem refListUnref_result_ambiguous_witness:
  "3 \<notin> refIdx ` set refs0 \<and>
   l2dbus_refListUnref world0 (Some refs0) (Some LuaState) 3 = (False, Some refs0, world0) \<and>
   2 \<in> refIdx ` set refs0 \<and>
   fst (l2dbus_refListUnref world0 (Some refs0) (Some LuaState) 2) = False \<and>
   fst (snd (l2dbus_refListUnref world0 (Some refs0) (Some LuaState) 2)) = Some [\<lparr>item_addr = 10, refIdx = 1\<rparr>]"
  using refListUnref_result_ambiguous[of 3 refs0 world0 "Some LuaState" "Some refs0"]
        refListUnref_result_ambiguous[of 2 refs0 world0 "Some LuaState" "Some refs0"]
  by (simp add: refs0_def l2dbus_refListUnref_def)

text \<open>
  C9.  \<open>l2dbus_refListIterInit\<close> reads the successor link of the first element without a
  test: on an empty list this dereferences \<open>NULL\<close>; on every non-empty list it sets
  \<open>cur\<close> to the first element and \<open>next\<close> to that element's successor (\<open>NULL\<close> when
  the list has one element).
\<close>

theorem refListIterInit_needs_nonempty:
  "l2dbus_refListIterInit (Some []) (Some it) = Inl NullDeref \<and>
   l2dbus_refListIterInit (Some (x # rest)) (Some it) =
     Inr (Some \<lparr>iter_cur = Some (item_addr x), iter_next = LIST_FIRST rest\<rparr>) \<and>
   (LIST_FIRST rest = (case rest of [] \<Rightarrow> None | y # ys \<Rightarrow> Some (item_addr y)))"
  by (cases it) (simp add: l2dbus_refListIterInit_def split: list.splits)

section \<open>Properties of dispatch and disposal\<close>

lemma pcall_handler:
  "lua_pcall exec w (stk @ [f, a, b, c]) 3 0 =
     (case exec f [a, b, c] w of
        (Returned rs, w') \<Rightarrow> (0, stk, w')
      | (Raised st e, w') \<Rightarrow> (status_code st, stk @ [e], w'))"
  by (simp add: lua_pcall_def nth_append split: prod.splits call_result.splits)

lemma status_code_nonzero: "status_code st \<noteq> 0"
  by (cases st) simp_all

lemma tostring_isstring: "\<not> lua_isstring e \<Longrightarrow> lua_tostring lib e = None"
  by (cases e) simp_all

lemma matchHandler_eq:
  "l2dbus_matchHandler exec lib w (Some stk) msg (Some (ma, m)) =
     (case exec (registry_get w (funcRef (cbCtx m))) (handler_args w msg ma m) w of
        (Returned rs, w1) \<Rightarrow> Inr ([], w1)
      | (Raised st e, w1) \<Rightarrow>
          Inr ([], L2DBUS_TRACE w1 L2DBUS_TRC_ERROR ''Match callback error: %s''
                     [TraceStr (error_text lib e)]))"
proof -
  obtain r w1 where ex:
    "exec (registry_get w (funcRef (cbCtx m)))
       [LLightUserdata ma, l2dbus_messageWrap msg, registry_get w (userRef (cbCtx m))] w = (r, w1)"
    by (cases "exec (registry_get w (funcRef (cbCtx m)))
       [LLightUserdata ma, l2dbus_messageWrap msg, registry_get w (userRef (cbCtx m))] w") auto
  show ?thesis
  proof (cases r)
    case (Returned rs)
    then show ?thesis
      using ex by (simp add: l2dbus_matchHandler_def pcall_handler handler_args_def lua_settop_def)
  next
    case (Raised st e)
    show ?thesis
      using ex Raised
      by (simp add: l2dbus_matchHandler_def pcall_handler handler_args_def lua_settop_def
            status_code_nonzero error_text_def tostring_isstring)
  qed
qed

text \<open>
  C5.  For every message, every stack of the callback thread and every handler behaviour,
  \<open>l2dbus_matchHandler\<close> returns
  normally with the thread's stack empty (top = 0): when the match context is \<open>NULL\<close>
  nothing else happens; when the handler returns, the state is the one the handler left;
  when the handler raises, the error is caught by the protected call, one trace entry of
  level error with the error text is logged, and the error goes no further.
\<close>

theorem matchHandler_confines_failure:
  "(\<exists>w'. l2dbus_matchHandler exec lib w (Some stk) msg userData = Inr ([], w')) \<and>
   l2dbus_matchHandler exec lib w (Some stk) msg None = Inr ([], w) \<and>
   (exec (registry_get w (funcRef (cbCtx m))) (handler_args w msg ma m) w = (Returned rs, w1) \<longrightarrow>
      l2dbus_matchHandler exec lib w (Some stk) msg (Some (ma, m)) = Inr ([], w1)) \<and>
   (exec (registry_get w (funcRef (cbCtx m))) (handler_args w msg ma m) w = (Raised st e, w1) \<longrightarrow>
      l2dbus_matchHandler exec lib w (Some stk) msg (Some (ma, m)) =
        Inr ([], w1\<lparr>events := events w1 @
                     [EvTrace L2DBUS_TRC_ERROR ''Match callback error: %s''
                        [TraceStr (error_text lib e)]]\<rparr>))"
proof (intro conjI impI)
  show "\<exists>w'. l2dbus_matchHandler exec lib w (Some stk) msg userData = Inr ([], w')"
  proof (cases userData)
    case None
    then show ?thesis by (simp add: l2dbus_matchHandler_def lua_settop_def)
  next
    case (Some p)
    then show ?thesis
      by (cases p) (simp add: matchHandler_eq split: prod.splits call_result.splits)
  qed
next
  show "l2dbus_matchHandler exec lib w (Some stk) msg None = Inr ([], w)"
    by (simp add: l2dbus_matchHandler_def lua_settop_def)
qed (simp_all add: matchHandler_eq L2DBUS_TRACE_def)

theorem matchHandler_confines_failure_witness:
  "exec_fail (registry_get world0 (funcRef (cbCtx match0))) (handler_args world0 7 5 match0) world0
     = (Raised LUA_ERRRUN (LString ''boom''), world0) \<and>
   l2dbus_matchHandler exec_fail lib0 world0 (Some [LNumber 1]) 7 (Some (5, match0)) =
     Inr ([], world0\<lparr>events := events world0 @
                     [EvTrace L2DBUS_TRC_ERROR ''Match callback error: %s''
                        [TraceStr (error_text lib0 (LString ''boom''))]]\<rparr>)"
  using matchHandler_confines_failure[of exec_fail lib0 world0 "[LNumber 1]" 7 "Some (5, match0)"
          match0 5 "[]" world0 LUA_ERRRUN "LString ''boom''"]
  by (simp add: exec_fail_def)

lemma events_luaL_unref: "events (luaL_unref w r) = events w @ [EvUnref r]"
  by (simp add: luaL_unref_def)

lemma events_free: "events (l2dbus_free (Some a) w) = events w @ [EvFree a]"
  by (simp add: l2dbus_free_def)

lemma live_luaL_unref: "live (luaL_unref w r) = live w"
  by (simp add: luaL_unref_def)

lemma handlers_luaL_unref: "handlers (luaL_unref w r) = handlers w"
  by (simp add: luaL_unref_def)

lemma registry_luaL_unref:
  "registry (luaL_unref w r) = (if 0 \<le> r then filter (\<lambda>kv. fst kv \<noteq> r) (registry w) else registry w)"
  by (simp add: luaL_unref_def)

lemma unreg_eq:
  "cdbus_connectionUnregMatchHandler w c hnd =
     (unreg_result w hnd,
      w\<lparr>handlers := filter (\<lambda>kv. Some (fst kv) \<noteq> hnd) (handlers w),
        events := events w @ [EvUnregMatch hnd (unreg_result w hnd)]\<rparr>)"
proof (cases hnd)
  case None
  then show ?thesis by (simp add: cdbus_connectionUnregMatchHandler_def unreg_result_def)
next
  case (Some h)
  have "h \<notin> fst ` set (handlers w) \<Longrightarrow> filter (\<lambda>kv. fst kv \<noteq> h) (handlers w) = handlers w"
    by (induction "handlers w") (auto simp: filter_id_conv)
  then show ?thesis using Some
    by (auto simp: cdbus_connectionUnregMatchHandler_def unreg_result_def)
qed

text \<open>
  C6.  For every subscription whose connection reference resolves to the connection
  userdata, \<open>l2dbus_disposeMatch\<close> returns normally and its calls are, in this order:
  the native unregistration (followed by one warning in the trace when it fails, and by
  nothing else: a failure is not raised and disposal goes on), the release of the handler
  reference and of the user-data reference, the release of the connection reference, the
  release of the shell.  No reference is released before the unregistration has been
  attempted.  Afterwards the handle is unknown to the bus client, none of the three
  references is in the registry, and the shell's block is freed.
\<close>

theorem disposeMatch_order:
  assumes "lua_touserdata (registry_get w (connRef m)) = Some connUd"
  shows "\<exists>w'. l2dbus_disposeMatch w (Some (ma, m)) = Inr w' \<and>
           events w' = events w
             @ [EvUnregMatch (matchHnd m) (unreg_result w (matchHnd m))]
             @ (if unreg_result w (matchHnd m) = CDBUS_RESULT_SUCCESS then []
                else [EvTrace L2DBUS_TRC_WARN ''Failed to unregister match (0x%x)''
                        [TraceHResult (unreg_result w (matchHnd m))]])
             @ [EvUnref (funcRef (cbCtx m)), EvUnref (userRef (cbCtx m)),
                EvUnref (connRef m), EvFree ma] \<and>
           handlers w' = filter (\<lambda>kv. Some (fst kv) \<noteq> matchHnd m) (handlers w) \<and>
           (\<forall>r \<in> {funcRef (cbCtx m), userRef (cbCtx m), connRef m}.
              0 \<le> r \<longrightarrow> r \<notin> fst ` set (registry w')) \<and>
           live w' = live w - {#ma#}"
  using assms
  by (auto simp: l2dbus_disposeMatch_def unreg_eq CDBUS_FAILED_def L2DBUS_TRACE_def
        l2dbus_callbackUnref_def events_luaL_unref events_free live_luaL_unref
        handlers_luaL_unref registry_luaL_unref l2dbus_free_def)

theorem disposeMatch_order_witness:
  "lua_touserdata (registry_get world1 (connRef match0)) = Some 9 \<and>
   (\<exists>w'. l2dbus_disposeMatch world1 (Some (5, match0)) = Inr w' \<and>
      events w' =
        [EvUnregMatch (Some 0) CDBUS_RESULT_FAILURE,
         EvTrace L2DBUS_TRC_WARN ''Failed to unregister match (0x%x)''
           [TraceHResult CDBUS_RESULT_FAILURE],
         EvUnref 2, EvUnref 3, EvUnref 1, EvFree 5] \<and>
      registry w' = [] \<and> live w' = {#})"
proof -
  have h: "lua_touserdata (registry_get world1 (connRef match0)) = Some 9"
    by (simp add: world1_def world0_def match0_def registry_get_def)
  from disposeMatch_order[OF h, of 5] obtain w' where
    d: "l2dbus_disposeMatch world1 (Some (5, match0)) = Inr w'" by blast
  have "l2dbus_disposeMatch world1 (Some (5, match0)) =
          Inr (l2dbus_free (Some 5) (luaL_unref (l2dbus_callbackUnref
                 (L2DBUS_TRACE (snd (cdbus_connectionUnregMatchHandler world1 9 (Some 0)))
                    L2DBUS_TRC_WARN ''Failed to unregister match (0x%x)''
                    [TraceHResult CDBUS_RESULT_FAILURE]) (cbCtx match0)) 1))"
    using h
    by (simp add: l2dbus_disposeMatch_def match0_def world1_def world0_def
          cdbus_connectionUnregMatchHandler_def CDBUS_FAILED_def)
  then show ?thesis
    using h d
    by (auto simp: match0_def world1_def world0_def cdbus_connectionUnregMatchHandler_def
          L2DBUS_TRACE_def l2dbus_callbackUnref_def luaL_unref_def l2dbus_free_def)
qed

section \<open>Properties of \<open>l2dbus_newMatch\<close>\<close>

subsection \<open>What each step does to the state\<close>

lemma alloc_only_refl: "alloc_only w w"
  by (simp add: alloc_only_def)

lemma alloc_only_trans: "alloc_only w w1 \<Longrightarrow> alloc_only w1 w2 \<Longrightarrow> alloc_only w w2"
  by (simp add: alloc_only_def)

lemma trace_frame:
  "alloc_only w (L2DBUS_TRACE w lvl fmt args) \<and> live (L2DBUS_TRACE w lvl fmt args) = live w"
  by (simp add: L2DBUS_TRACE_def alloc_only_def)

lemma malloc_frame:
  "l2dbus_malloc w = (p, w') \<Longrightarrow> alloc_only w w' \<and> live w' = live w + opt_block p"
  by (auto simp: l2dbus_malloc_def alloc_only_def opt_block_def split: if_splits)

lemma strDup_frame:
  "l2dbus_strDup w s = (p, w') \<Longrightarrow>
     alloc_only w w' \<and> live w' = live w + opt_block (map_option fst p)"
  by (auto simp: l2dbus_strDup_def opt_block_def split: prod.splits option.splits
      dest!: malloc_frame)

lemma strField_frame:
  "newMatch_strField lib w v = (p, w') \<Longrightarrow>
     alloc_only w w' \<and> live w' = live w + opt_block (map_option fst p)"
  by (auto simp: newMatch_strField_def alloc_only_refl opt_block_def
      split: if_splits option.splits dest: strDup_frame)

lemma free_frame:
  "alloc_only w (l2dbus_free p w) \<and> live (l2dbus_free p w) = live w - opt_block p"
  by (cases p) (simp_all add: l2dbus_free_def alloc_only_def opt_block_def)

lemma isstring_tostring: "lua_isstring e \<Longrightarrow> \<exists>s. lua_tostring lib e = Some s"
  by (cases e) simp_all

lemma argType_ok_iff:
  "(newMatch_argType lib ty \<noteq> CDBUS_FILTER_ARG \<and> newMatch_argType lib ty \<noteq> CDBUS_FILTER_ARG_PATH)
     = (\<not> type_tag_ok lib ty)"
  by (cases ty) (auto simp: newMatch_argType_def type_tag_ok_def lua_isnil_def)

lemma argLoop_done:
  "\<not> idx < n \<Longrightarrow> newMatch_argLoop lib tbl n idx fa w = (False, [], idx, fa, w)"
  by (subst newMatch_argLoop.simps) simp

lemma argLoop_bad:
  assumes "idx < n" "bad_element lib (lua_rawgeti tbl (int idx + 1))" "idx < length fa"
  shows "\<exists>fa'. newMatch_argLoop lib tbl n idx fa w =
           (True, element_reason lib (lua_rawgeti tbl (int idx + 1)), idx, fa', w) \<and>
           length fa' = length fa \<and> take idx fa' = take idx fa"
  using assms
  apply (subst newMatch_argLoop.simps)
  apply (simp add: Let_def argType_ok_iff bad_element_def element_reason_def
      DBUS_MAXIMUM_MATCH_RULE_ARG_NUMBER_def tostring_isstring
      split: option.splits)
  apply (auto dest: isstring_tostring)
  done

lemma argLoop_ok:
  assumes "idx < n" "\<not> bad_element lib (lua_rawgeti tbl (int idx + 1))" "idx < length fa"
    and "lua_tostring lib (lua_getfield (lua_rawgeti tbl (int idx + 1)) ''value'') = Some s"
    and "l2dbus_strDup w s = (p, w1)"
  shows "newMatch_argLoop lib tbl n idx fa w =
           newMatch_argLoop lib tbl n (Suc idx)
             (fa[idx := (fa ! idx)\<lparr>argType := newMatch_argType lib
                                        (lua_getfield (lua_rawgeti tbl (int idx + 1)) ''type''),
                                   argN := argN_store lib (lua_tointeger lib
                                        (lua_getfield (lua_rawgeti tbl (int idx + 1)) ''index'')),
                                   argValue := p\<rparr>]) w1"
  using assms
  apply (subst newMatch_argLoop.simps)
  apply (simp add: Let_def argType_ok_iff bad_element_def 
      DBUS_MAXIMUM_MATCH_RULE_ARG_NUMBER_def)
  done


lemma drop_take_Cons:
  "idx < k \<Longrightarrow> k \<le> length xs \<Longrightarrow> drop idx (take k xs) = xs ! idx # drop (Suc idx) (take k xs)"
  using Cons_nth_drop_Suc[of idx "take k xs"] by simp

lemma take_Suc_eq_imp:
  assumes "take (Suc i) xs = take (Suc i) ys" "i < length xs" "i < length ys"
  shows "take i xs = take i ys \<and> xs ! i = ys ! i"
proof -
  have "take i (take (Suc i) xs) = take i (take (Suc i) ys)" using assms(1) by simp
  then have a: "take i xs = take i ys" by (simp add: min_def)
  have "take (Suc i) xs ! i = take (Suc i) ys ! i" using assms(1) by simp
  then have "xs ! i = ys ! i" by simp
  with a show ?thesis by simp
qed

lemma argLoop_inv:
  assumes "n - idx = d" "idx \<le> n" "length fa = Suc n"
    and "newMatch_argLoop lib tbl n idx fa w = (failed, reason, k, fa', w')"
  shows "idx \<le> k \<and> k \<le> n \<and> length fa' = Suc n \<and> take idx fa' = take idx fa \<and>
         (\<forall>i. idx \<le> i \<and> i < k \<longrightarrow> argType (fa' ! i) \<noteq> CDBUS_FILTER_ARG_INVALID) \<and>
         alloc_only w w' \<and> live w' = live w + item_blocks (drop idx (take k fa')) \<and>
         (\<not> failed \<longrightarrow> k = n)"
  using assms
proof (induction d arbitrary: idx fa w)
  case 0
  then have "\<not> idx < n" by simp
  from argLoop_done[OF this, of lib tbl fa w] 0 show ?case by (auto simp: alloc_only_refl)
next
  case (Suc d)
  then have lt: "idx < n" and len: "idx < length fa" by simp_all
  let ?item = "lua_rawgeti tbl (int idx + 1)"
  show ?case
  proof (cases "bad_element lib ?item")
    case True
    from argLoop_bad[OF lt True len, of w] Suc.prems show ?thesis
      by (auto simp: alloc_only_refl)
  next
    case False
    then have "lua_isstring (lua_getfield ?item ''value'')" by (simp add: bad_element_def)
    then obtain s where s: "lua_tostring lib (lua_getfield ?item ''value'') = Some s"
      using isstring_tostring by blast
    obtain p w1 where d: "l2dbus_strDup w s = (p, w1)" by (cases "l2dbus_strDup w s") auto
    let ?new = "(fa ! idx)\<lparr>argType := newMatch_argType lib (lua_getfield ?item ''type''),
                            argN := argN_store lib (lua_tointeger lib (lua_getfield ?item ''index'')),
                            argValue := p\<rparr>"
    let ?fa3 = "fa[idx := ?new]"
    have rec: "newMatch_argLoop lib tbl n (Suc idx) ?fa3 w1 = (failed, reason, k, fa', w')"
      using argLoop_ok[OF lt False len s d] Suc.prems(4) lt by simp
    have ih: "Suc idx \<le> k \<and> k \<le> n \<and> length fa' = Suc n \<and>
              take (Suc idx) fa' = take (Suc idx) ?fa3 \<and>
              (\<forall>i. Suc idx \<le> i \<and> i < k \<longrightarrow> argType (fa' ! i) \<noteq> CDBUS_FILTER_ARG_INVALID) \<and>
              alloc_only w1 w' \<and> live w' = live w1 + item_blocks (drop (Suc idx) (take k fa')) \<and>
              (\<not> failed \<longrightarrow> k = n)"
      using Suc.IH[of "Suc idx" ?fa3 w1] Suc.prems lt rec by simp
    have tk: "take idx fa' = take idx ?fa3 \<and> fa' ! idx = ?fa3 ! idx"
      using take_Suc_eq_imp[of idx fa' ?fa3] ih len Suc.prems(3) by simp
    then have t1: "take idx fa' = take idx fa" and t2: "fa' ! idx = ?new"
      using len by simp_all
    have ty: "argType (fa' ! idx) \<noteq> CDBUS_FILTER_ARG_INVALID"
      using False argType_ok_iff[of lib "lua_getfield ?item ''type''"] t2
      by (auto simp: bad_element_def)
    have valid: "\<forall>i. idx \<le> i \<and> i < k \<longrightarrow> argType (fa' ! i) \<noteq> CDBUS_FILTER_ARG_INVALID"
    proof (intro allI impI)
      fix i assume "idx \<le> i \<and> i < k"
      then show "argType (fa' ! i) \<noteq> CDBUS_FILTER_ARG_INVALID"
        using ty ih by (cases "i = idx") auto
    qed
    have dr: "drop idx (take k fa') = fa' ! idx # drop (Suc idx) (take k fa')"
      using drop_take_Cons[of idx k fa'] ih by simp
    have lv: "live w' = live w + item_blocks (drop idx (take k fa'))"
      using ih strDup_frame[OF d] dr t2 by (simp add: ac_simps)
    have ao: "alloc_only w w'"
      using strDup_frame[OF d] ih alloc_only_trans by blast
    show ?thesis using ih t1 valid lv ao by simp
  qed
qed

lemma filterArgs_frame:
  assumes "newMatch_filterArgs lib w v = (failed, reason, fargs, w')"
  shows "alloc_only w w' \<and>
         (case fargs of
            None \<Rightarrow> live w' = live w
          | Some (a, fa) \<Rightarrow>
              \<exists>k. filter_shape fa k \<and> live w' = live w + ({#a#} + item_blocks (take k fa)))"
proof (cases "lua_istable v \<and> lua_rawlen v > 0")
  case False
  then show ?thesis using assms
    by (auto simp: newMatch_filterArgs_def Let_def alloc_only_refl split: if_splits)
next
  case True
  define n where "n = (if lua_rawlen v > DBUS_MAXIMUM_MATCH_RULE_ARG_NUMBER + 1
                       then DBUS_MAXIMUM_MATCH_RULE_ARG_NUMBER + 1 else lua_rawlen v)"
  have n64: "n \<le> 64" by (simp add: n_def DBUS_MAXIMUM_MATCH_RULE_ARG_NUMBER_def)
  obtain p w1 where c: "l2dbus_calloc w = (p, w1)" by (cases "l2dbus_calloc w") auto
  have c': "l2dbus_malloc w = (p, w1)" using c by (simp add: l2dbus_calloc_def)
  show ?thesis
  proof (cases p)
    case None
    then show ?thesis using assms True c malloc_frame[OF c']
      by (auto simp: newMatch_filterArgs_def Let_def opt_block_def)
  next
    case (Some a)
    obtain f r k fa' w2 where
      l: "newMatch_argLoop lib v n 0 (replicate (n + 1) zero_item) w1 = (f, r, k, fa', w2)"
      by (cases "newMatch_argLoop lib v n 0 (replicate (n + 1) zero_item) w1") auto
    have inv: "k \<le> n \<and> length fa' = Suc n \<and>
               (\<forall>i. i < k \<longrightarrow> argType (fa' ! i) \<noteq> CDBUS_FILTER_ARG_INVALID) \<and>
               alloc_only w1 w2 \<and> live w2 = live w1 + item_blocks (take k fa')"
      using argLoop_inv[OF refl _ _ l] by simp
    let ?fa = "fa'[k := (fa' ! k)\<lparr>argType := CDBUS_FILTER_ARG_INVALID\<rparr>]"
    have res: "fargs = Some (a, ?fa) \<and> w' = w2"
      using assms True c Some l by (simp add: newMatch_filterArgs_def Let_def n_def)
    have sh: "filter_shape ?fa k"
      using inv n64 by (auto simp: filter_shape_def nth_list_update)
    have tk: "take k ?fa = take k fa'" by simp
    have "live w' = live w + ({#a#} + item_blocks (take k ?fa))"
      using res inv malloc_frame[OF c'] Some tk by (simp add: opt_block_def)
    moreover have "alloc_only w w'"
      using res inv malloc_frame[OF c'] alloc_only_trans by blast
    ultimately show ?thesis using res sh by auto
  qed
qed

lemma freeLoop_frame:
  assumes "k - idx = d" "idx \<le> k" "filter_shape fa k"
  shows "\<exists>w'. matchFreeRule_loop fa idx w = Inr w' \<and> alloc_only w w' \<and>
              live w' = live w - item_blocks (drop idx (take k fa))"
  using assms
proof (induction d arbitrary: idx w)
  case 0
  then have e: "idx = k" by simp
  show ?case
  proof (cases "k < 64")
    case True
    then show ?thesis using 0 e
      by (subst matchFreeRule_loop.simps)
         (auto simp: filter_shape_def alloc_only_refl DBUS_MAXIMUM_MATCH_RULE_ARG_NUMBER_def)
  next
    case False
    then show ?thesis using 0 e
      by (subst matchFreeRule_loop.simps)
         (auto simp: filter_shape_def alloc_only_refl DBUS_MAXIMUM_MATCH_RULE_ARG_NUMBER_def)
  qed
next
  case (Suc d)
  then have lt: "idx < k" by simp
  have k: "k \<le> 64" "k \<le> length fa" and ty: "argType (fa ! idx) \<noteq> CDBUS_FILTER_ARG_INVALID"
    using Suc.prems(3) lt by (auto simp: filter_shape_def)
  let ?w1 = "l2dbus_free (map_option fst (argValue (fa ! idx))) w"
  have st: "matchFreeRule_loop fa idx w = matchFreeRule_loop fa (Suc idx) ?w1"
    using lt k ty
    by (subst matchFreeRule_loop.simps) (auto simp: DBUS_MAXIMUM_MATCH_RULE_ARG_NUMBER_def)
  obtain w' where ih: "matchFreeRule_loop fa (Suc idx) ?w1 = Inr w'" "alloc_only ?w1 w'"
      "live w' = live ?w1 - item_blocks (drop (Suc idx) (take k fa))"
  proof -
    have "k - Suc idx = d" using Suc.prems(1) lt by simp
    from Suc.IH[OF this _ Suc.prems(3), of ?w1] lt that show ?thesis by auto
  qed
  have dr: "drop idx (take k fa) = fa ! idx # drop (Suc idx) (take k fa)"
    using drop_take_Cons[OF lt k(2)] .
  have "live w' = live w - item_blocks (drop idx (take k fa))"
    using ih(3) free_frame[of w "map_option fst (argValue (fa ! idx))"] dr
    by (simp add: diff_diff_add)
  moreover have "alloc_only w w'"
    using ih(2) free_frame[of w "map_option fst (argValue (fa ! idx))"] alloc_only_trans by blast
  ultimately show ?case using st ih(1) by simp
qed

lemma matchFreeRule_frame:
  assumes "rule_shape r k"
  shows "\<exists>w'. l2dbus_matchFreeRule (Some r) w = Inr w' \<and> alloc_only w w' \<and>
              live w' = live w - rule_blocks r k"
proof -
  let ?w1 = "l2dbus_free (map_option fst (r_member r)) w"
  let ?w2 = "l2dbus_free (map_option fst (r_objInterface r)) ?w1"
  let ?w3 = "l2dbus_free (map_option fst (r_sender r)) ?w2"
  let ?w4 = "l2dbus_free (map_option fst (r_path r)) ?w3"
  let ?w5 = "l2dbus_free (map_option fst (r_arg0Namespace r)) ?w4"
  have ao5: "alloc_only w ?w5"
    using free_frame alloc_only_trans by blast
  have lv5: "live ?w5 = live w -
      (opt_block (map_option fst (r_member r)) + opt_block (map_option fst (r_objInterface r)) +
       opt_block (map_option fst (r_sender r)) + opt_block (map_option fst (r_path r)) +
       opt_block (map_option fst (r_arg0Namespace r)))"
    by (simp add: free_frame diff_diff_add)
  show ?thesis
  proof (cases "r_filterArgs r")
    case None
    then show ?thesis using ao5 lv5
      by (simp add: l2dbus_matchFreeRule_def Let_def rule_blocks_def)
  next
    case (Some afa)
    obtain a fa where afa: "afa = (a, fa)" by (cases afa)
    have sh: "filter_shape fa k" using assms Some afa by (simp add: rule_shape_def)
    obtain w6 where l: "matchFreeRule_loop fa 0 ?w5 = Inr w6" "alloc_only ?w5 w6"
        "live w6 = live ?w5 - item_blocks (take k fa)"
      using freeLoop_frame[OF refl _ sh, of 0 ?w5] by auto
    have "l2dbus_matchFreeRule (Some r) w = Inr (l2dbus_free (Some a) w6)"
      using Some afa l(1) by (simp add: l2dbus_matchFreeRule_def Let_def)
    moreover have "alloc_only w (l2dbus_free (Some a) w6)"
      using ao5 l(2) free_frame alloc_only_trans by blast
    moreover have "live (l2dbus_free (Some a) w6) = live w - rule_blocks r k"
      using l(3) lv5 Some afa
      by (simp add: free_frame rule_blocks_def opt_block_def diff_diff_add ac_simps)
    ultimately show ?thesis by simp
  qed
qed

lemma build_frame:
  assumes "newMatch_build lib w rule = (failed, reason, r, w')"
  shows "alloc_only w w' \<and> (\<exists>k. rule_shape r k \<and> live w' = live w + rule_blocks r k)"
proof -
  let ?w0 = "L2DBUS_TRACE w L2DBUS_TRC_TRACE ''Create: match'' []"
  have t0: "alloc_only w ?w0 \<and> live ?w0 = live w" by (rule trace_frame)
  obtain m w1 where f1: "newMatch_strField lib ?w0 (lua_getfield rule ''member'') = (m, w1)"
    by (cases "newMatch_strField lib ?w0 (lua_getfield rule ''member'')") auto
  obtain i w2 where f2: "newMatch_strField lib w1 (lua_getfield rule ''interface'') = (i, w2)"
    by (cases "newMatch_strField lib w1 (lua_getfield rule ''interface'')") auto
  obtain s w3 where f3: "newMatch_strField lib w2 (lua_getfield rule ''sender'') = (s, w3)"
    by (cases "newMatch_strField lib w2 (lua_getfield rule ''sender'')") auto
  obtain p w4 where f4: "newMatch_strField lib w3 (lua_getfield rule ''path'') = (p, w4)"
    by (cases "newMatch_strField lib w3 (lua_getfield rule ''path'')") auto
  obtain a0 w5 where f5: "newMatch_strField lib w4 (lua_getfield rule ''arg0Namespace'') = (a0, w5)"
    by (cases "newMatch_strField lib w4 (lua_getfield rule ''arg0Namespace'')") auto
  obtain fl rs fargs w6 where
    f6: "newMatch_filterArgs lib w5 (lua_getfield rule ''filterArgs'') = (fl, rs, fargs, w6)"
    by (cases "newMatch_filterArgs lib w5 (lua_getfield rule ''filterArgs'')") auto
  have r: "r_member r = m" "r_objInterface r = i" "r_sender r = s" "r_path r = p"
      "r_arg0Namespace r = a0" "r_filterArgs r = fargs" "w' = w6"
    using assms f1 f2 f3 f4 f5 f6 by (auto simp: newMatch_build_def Let_def)
  note fr = strField_frame[OF f1] strField_frame[OF f2] strField_frame[OF f3]
    strField_frame[OF f4] strField_frame[OF f5] filterArgs_frame[OF f6]
  have ao: "alloc_only w w'"
    using t0 fr r(7) by (simp add: alloc_only_def)
  have lv5: "live w5 = live w + (opt_block (map_option fst m) + opt_block (map_option fst i) +
       opt_block (map_option fst s) + opt_block (map_option fst p) +
       opt_block (map_option fst a0))"
    using t0 fr by (simp add: ac_simps)
  show ?thesis
  proof (cases fargs)
    case None
    then show ?thesis using ao lv5 fr(6) r
      by (simp add: rule_shape_def rule_blocks_def)
  next
    case (Some afa)
    obtain a fa where afa: "afa = (a, fa)" by (cases afa)
    obtain k where k: "filter_shape fa k" "live w6 = live w5 + ({#a#} + item_blocks (take k fa))"
      using fr(6) Some afa by auto
    have "rule_shape r k" using k(1) r Some afa by (simp add: rule_shape_def)
    moreover have "live w' = live w + rule_blocks r k"
      using k(2) lv5 r Some afa by (simp add: rule_blocks_def ac_simps)
    ultimately show ?thesis using ao by blast
  qed
qed

lemma build_then_free:
  assumes "newMatch_build lib w rule = (failed, reason, r, w1)"
  shows "\<exists>B. alloc_only w w1 \<and> live w1 = live w + B \<and>
           (\<forall>w2. \<exists>w3. l2dbus_matchFreeRule (Some r) w2 = Inr w3 \<and> alloc_only w2 w3 \<and>
                       live w3 = live w2 - B)"
proof -
  obtain k where k: "alloc_only w w1" "rule_shape r k" "live w1 = live w + rule_blocks r k"
    using build_frame[OF assms] by blast
  show ?thesis
    using k(1,3) matchFreeRule_frame[OF k(2)] by blast
qed

lemma newMatch_epilogue:
  assumes run: "newMatch_run lib w ruleV func user conn = Inr (failed, reason, match, r, w2)"
    and bld: "newMatch_build lib w ruleV = (f0, r0, r', w1)"
  shows "\<exists>B w4. alloc_only w w1 \<and> live w1 = live w + B \<and> r' = r \<and>
           l2dbus_newMatch lib w ruleV func user conn (Some e) =
             Inr ((if failed then None else match),
                  (if e = None then None else Some reason), w4) \<and>
           alloc_only (if failed then l2dbus_free (map_option fst match) w2 else w2) w4 \<and>
           live w4 = live (if failed then l2dbus_free (map_option fst match) w2 else w2) - B"
proof -
  have rr: "r' = r"
    using run bld by (auto simp: newMatch_run_def split: if_splits sum.splits)
  obtain B where B: "alloc_only w w1" "live w1 = live w + B"
      "\<And>w2. \<exists>w3. l2dbus_matchFreeRule (Some r) w2 = Inr w3 \<and> alloc_only w2 w3 \<and>
                       live w3 = live w2 - B"
    using build_then_free[OF bld] rr by blast
  let ?w3 = "if failed then l2dbus_free (map_option fst match) w2 else w2"
  obtain w4 where w4: "l2dbus_matchFreeRule (Some r) ?w3 = Inr w4" "alloc_only ?w3 w4"
      "live w4 = live ?w3 - B"
    using B(3)[of ?w3] by blast
  have "l2dbus_newMatch lib w ruleV func user conn (Some e) =
          Inr ((if failed then None else match), (if e = None then None else Some reason), w4)"
    using run w4(1) by (cases failed) (simp_all add: l2dbus_newMatch_def)
  then show ?thesis using B(1,2) rr w4(2,3) by blast
qed

lemma reg_rejected:
  "\<not> reg_accepts w (rule_copy r) \<Longrightarrow>
     cdbus_connectionRegMatchHandler w c ma r = (None, w\<lparr>events := events w @ [EvRegMatch None]\<rparr>)"
  by (simp add: cdbus_connectionRegMatchHandler_def)

subsection \<open>The loop over the filter elements\<close>

lemma rawgeti_nth:
  "idx < length arr \<Longrightarrow> lua_rawgeti (LTable ffs arr) (int idx + 1) = arr ! idx"
  by simp

lemma argLoop_first_bad:
  assumes "n - idx = d" "idx \<le> n" "n \<le> length arr" "length fa = Suc n"
    and "find (bad_element lib) (drop idx (take n arr)) = Some e"
  shows "\<exists>k fa' w'. newMatch_argLoop lib (LTable ffs arr) n idx fa w =
           (True, element_reason lib e, k, fa', w')"
  using assms
proof (induction d arbitrary: idx fa w)
  case 0
  then show ?case by simp
next
  case (Suc d)
  then have lt: "idx < n" and len: "idx < length fa" and la: "idx < length arr" by simp_all
  have item: "lua_rawgeti (LTable ffs arr) (int idx + 1) = arr ! idx"
    using rawgeti_nth[OF la] .
  have dr: "drop idx (take n arr) = arr ! idx # drop (Suc idx) (take n arr)"
    using drop_take_Cons[OF lt Suc.prems(3)] .
  show ?case
  proof (cases "bad_element lib (arr ! idx)")
    case True
    then have "e = arr ! idx" using Suc.prems(5) dr by simp
    then show ?thesis
      using argLoop_bad[of idx n lib "LTable ffs arr" fa w] lt True len item by auto
  next
    case False
    then have "lua_isstring (lua_getfield (arr ! idx) ''value'')" by (simp add: bad_element_def)
    then obtain s where s: "lua_tostring lib (lua_getfield (arr ! idx) ''value'') = Some s"
      using isstring_tostring by blast
    obtain p w1 where d: "l2dbus_strDup w s = (p, w1)" by (cases "l2dbus_strDup w s") auto
    have f: "find (bad_element lib) (drop (Suc idx) (take n arr)) = Some e"
      using Suc.prems(5) dr False by simp
    have m: "n - Suc idx = d" using Suc.prems(1) by simp
    show ?thesis
      using argLoop_ok[of idx n lib "LTable ffs arr" fa s w p w1] lt False len s d item
        Suc.IH[OF m _ Suc.prems(3) _ f, of _ w1] Suc.prems(4)
      by simp
  qed
qed

lemma strDup_no_oom:
  "\<not> oom w (nreq w) \<Longrightarrow> \<exists>w1. l2dbus_strDup w s = (Some (brk w, c_str s), w1)"
  by (simp add: l2dbus_strDup_def l2dbus_malloc_def)

lemma argLoop_all_ok:
  assumes "n - idx = d" "idx \<le> n" "n \<le> length arr" "length fa = Suc n"
    and "\<forall>e\<in>set (drop idx (take n arr)). \<not> bad_element lib e"
    and "\<forall>j. \<not> oom w j"
  shows "\<exists>fa' w'. newMatch_argLoop lib (LTable ffs arr) n idx fa w = (False, [], n, fa', w') \<and>
           map item_view (drop idx (take n fa')) = map (filter_of lib) (drop idx (take n arr))"
  using assms
proof (induction d arbitrary: idx fa w)
  case 0
  then have "\<not> idx < n" "idx = n" by simp_all
  then show ?case using argLoop_done[of idx n lib "LTable ffs arr" fa w] by simp
next
  case (Suc d)
  then have lt: "idx < n" and len: "idx < length fa" and la: "idx < length arr" by simp_all
  have item: "lua_rawgeti (LTable ffs arr) (int idx + 1) = arr ! idx"
    using rawgeti_nth[OF la] .
  have dr: "drop idx (take n arr) = arr ! idx # drop (Suc idx) (take n arr)"
    using drop_take_Cons[OF lt Suc.prems(3)] .
  have ok: "\<not> bad_element lib (arr ! idx)" using Suc.prems(5) dr by simp
  then have "lua_isstring (lua_getfield (arr ! idx) ''value'')" by (simp add: bad_element_def)
  then obtain s where s: "lua_tostring lib (lua_getfield (arr ! idx) ''value'') = Some s"
    using isstring_tostring by blast
  obtain w1 where d: "l2dbus_strDup w s = (Some (brk w, c_str s), w1)"
    using strDup_no_oom[of w s] Suc.prems(6) by blast
  have oom1: "\<forall>j. \<not> oom w1 j"
    using strDup_frame[OF d] Suc.prems(6) by (simp add: alloc_only_def)
  let ?new = "(fa ! idx)\<lparr>argType := newMatch_argType lib (lua_getfield (arr ! idx) ''type''),
                          argN := argN_store lib (lua_tointeger lib (lua_getfield (arr ! idx) ''index'')),
                          argValue := Some (brk w, c_str s)\<rparr>"
  let ?fa3 = "fa[idx := ?new]"
  have step: "newMatch_argLoop lib (LTable ffs arr) n idx fa w =
              newMatch_argLoop lib (LTable ffs arr) n (Suc idx) ?fa3 w1"
    using argLoop_ok[of idx n lib "LTable ffs arr" fa s w "Some (brk w, c_str s)" w1]
      lt ok len s d item by simp
  have m: "n - Suc idx = d" using Suc.prems(1) by simp
  have rest: "\<forall>e\<in>set (drop (Suc idx) (take n arr)). \<not> bad_element lib e"
    using Suc.prems(5) dr by simp
  obtain fa' w' where r:
    "newMatch_argLoop lib (LTable ffs arr) n (Suc idx) ?fa3 w1 = (False, [], n, fa', w')"
    "map item_view (drop (Suc idx) (take n fa')) = map (filter_of lib) (drop (Suc idx) (take n arr))"
    using Suc.IH[OF m _ Suc.prems(3) _ rest oom1, of ?fa3] lt Suc.prems(4) by auto
  have inv: "length fa' = Suc n \<and> take (Suc idx) fa' = take (Suc idx) ?fa3"
    using argLoop_inv[OF m _ _ r(1)] lt Suc.prems(4) by simp
  have "fa' ! idx = ?fa3 ! idx"
    using take_Suc_eq_imp[of idx fa' ?fa3] inv len lt by simp
  then have e: "item_view (fa' ! idx) = filter_of lib (arr ! idx)"
    using len s by (simp add: item_view_def filter_of_def)
  have dr': "drop idx (take n fa') = fa' ! idx # drop (Suc idx) (take n fa')"
    using drop_take_Cons[of idx n fa'] lt inv by simp
  show ?case using step r e dr dr' by simp
qed

lemma takeWhile_take:
  assumes "\<forall>i<k. P (xs ! i)" "k < length xs" "\<not> P (xs ! k)"
  shows "takeWhile P xs = take k xs"
  using assms by (intro takeWhile_eq_take_P_nth) auto

lemma filterArgs_ok:
  assumes "arr \<noteq> []" "\<forall>e\<in>set (take 64 arr). \<not> bad_element lib e" "\<forall>j. \<not> oom w j"
  shows "\<exists>a fa w'. newMatch_filterArgs lib w (LTable ffs arr) = (False, [], Some (a, fa), w') \<and>
           map item_view (takeWhile (\<lambda>it. argType it \<noteq> CDBUS_FILTER_ARG_INVALID) fa) =
             map (filter_of lib) (take 64 arr)"
proof -
  define n where "n = (if length arr > 64 then 64 else length arr)"
  have n: "n \<le> length arr" "n \<le> 64" "take n arr = take 64 arr" by (auto simp: n_def)
  obtain w1 where c: "l2dbus_calloc w = (Some (brk w), w1)"
    using assms(3) by (simp add: l2dbus_calloc_def l2dbus_malloc_def)
  have oom1: "\<forall>j. \<not> oom w1 j"
    using c assms(3) malloc_frame[of w "Some (brk w)" w1]
    by (simp add: l2dbus_calloc_def alloc_only_def)
  obtain fa' w2 where l:
    "newMatch_argLoop lib (LTable ffs arr) n 0 (replicate (n + 1) zero_item) w1 = (False, [], n, fa', w2)"
    "map item_view (take n fa') = map (filter_of lib) (take n arr)"
    using argLoop_all_ok[OF refl _ n(1) _ _ oom1, of 0 "replicate (n + 1) zero_item" lib ffs]
      assms(2) n(3) by auto
  have inv: "length fa' = Suc n \<and> (\<forall>i. i < n \<longrightarrow> argType (fa' ! i) \<noteq> CDBUS_FILTER_ARG_INVALID)"
    using argLoop_inv[OF refl _ _ l(1)] by simp
  let ?fa = "fa'[n := (fa' ! n)\<lparr>argType := CDBUS_FILTER_ARG_INVALID\<rparr>]"
  have res: "newMatch_filterArgs lib w (LTable ffs arr) = (False, [], Some (brk w, ?fa), w2)"
    using assms(1) c l(1)
    by (auto simp: newMatch_filterArgs_def Let_def n_def DBUS_MAXIMUM_MATCH_RULE_ARG_NUMBER_def
        split: if_splits)
  have "takeWhile (\<lambda>it. argType it \<noteq> CDBUS_FILTER_ARG_INVALID) ?fa = take n ?fa"
    using inv by (intro takeWhile_take) (auto simp: nth_list_update)
  then have "map item_view (takeWhile (\<lambda>it. argType it \<noteq> CDBUS_FILTER_ARG_INVALID) ?fa) =
             map (filter_of lib) (take 64 arr)"
    using l(2) n(3) by simp
  then show ?thesis using res by blast
qed

lemma filterArgs_bad:
  assumes "find (bad_element lib) (take 64 arr) = Some e" "\<not> oom w (nreq w)"
  shows "\<exists>fargs w'. newMatch_filterArgs lib w (LTable ffs arr) =
           (True, element_reason lib e, fargs, w')"
proof -
  define n where "n = (if length arr > 64 then 64 else length arr)"
  have n: "n \<le> length arr" "n \<le> 64" "take n arr = take 64 arr" by (auto simp: n_def)
  have ne: "arr \<noteq> []" using assms(1) by auto
  obtain w1 where c: "l2dbus_calloc w = (Some (brk w), w1)"
    using assms(2) by (simp add: l2dbus_calloc_def l2dbus_malloc_def)
  obtain k fa' w2 where l:
    "newMatch_argLoop lib (LTable ffs arr) n 0 (replicate (n + 1) zero_item) w1 =
       (True, element_reason lib e, k, fa', w2)"
    using argLoop_first_bad[OF refl _ n(1), of 0 "replicate (n + 1) zero_item" lib e ffs w1]
      assms(1) n(3) by auto
  show ?thesis
    using ne c l
    by (auto simp: newMatch_filterArgs_def Let_def n_def DBUS_MAXIMUM_MATCH_RULE_ARG_NUMBER_def
        split: if_splits)
qed

lemma build_filterArgs:
  assumes "newMatch_build lib w ruleV = (failed, reason, r, w')"
  shows "\<exists>w5. alloc_only w w5 \<and>
           newMatch_filterArgs lib w5 (lua_getfield ruleV ''filterArgs'') =
             (failed, reason, r_filterArgs r, w')"
proof -
  let ?w0 = "L2DBUS_TRACE w L2DBUS_TRC_TRACE ''Create: match'' []"
  have t0: "alloc_only w ?w0 \<and> live ?w0 = live w" by (rule trace_frame)
  obtain m w1 where f1: "newMatch_strField lib ?w0 (lua_getfield ruleV ''member'') = (m, w1)"
    by (cases "newMatch_strField lib ?w0 (lua_getfield ruleV ''member'')") auto
  obtain i w2 where f2: "newMatch_strField lib w1 (lua_getfield ruleV ''interface'') = (i, w2)"
    by (cases "newMatch_strField lib w1 (lua_getfield ruleV ''interface'')") auto
  obtain s w3 where f3: "newMatch_strField lib w2 (lua_getfield ruleV ''sender'') = (s, w3)"
    by (cases "newMatch_strField lib w2 (lua_getfield ruleV ''sender'')") auto
  obtain p w4 where f4: "newMatch_strField lib w3 (lua_getfield ruleV ''path'') = (p, w4)"
    by (cases "newMatch_strField lib w3 (lua_getfield ruleV ''path'')") auto
  obtain a0 w5 where f5: "newMatch_strField lib w4 (lua_getfield ruleV ''arg0Namespace'') = (a0, w5)"
    by (cases "newMatch_strField lib w4 (lua_getfield ruleV ''arg0Namespace'')") auto
  obtain fl rs fargs w6 where
    f6: "newMatch_filterArgs lib w5 (lua_getfield ruleV ''filterArgs'') = (fl, rs, fargs, w6)"
    by (cases "newMatch_filterArgs lib w5 (lua_getfield ruleV ''filterArgs'')") auto
  have r: "failed = fl" "reason = rs" "r_filterArgs r = fargs" "w' = w6"
    using assms f1 f2 f3 f4 f5 f6 by (auto simp: newMatch_build_def Let_def)
  have "alloc_only w w5"
    using t0 strField_frame[OF f1] strField_frame[OF f2] strField_frame[OF f3]
      strField_frame[OF f4] strField_frame[OF f5] by (simp add: alloc_only_def)
  then show ?thesis using f6 r by auto
qed

lemma copy_filterArgs:
  "r_filterArgs r = Some (a, fa) \<Longrightarrow>
     m_filterArgs (rule_copy r) =
       map item_view (takeWhile (\<lambda>it. argType it \<noteq> CDBUS_FILTER_ARG_INVALID) fa)"
  by (simp add: rule_copy_def item_view_def[abs_def])

lemma build_ok:
  assumes "lua_getfield ruleV ''filterArgs'' = LTable ffs arr" "arr \<noteq> []"
    and "\<forall>e\<in>set (take 64 arr). \<not> bad_element lib e" "\<forall>j. \<not> oom w j"
  shows "\<exists>r w1. newMatch_build lib w ruleV = (False, [], r, w1) \<and>
           m_filterArgs (rule_copy r) = map (filter_of lib) (take 64 arr)"
proof -
  obtain f rs r w1 where b: "newMatch_build lib w ruleV = (f, rs, r, w1)"
    by (cases "newMatch_build lib w ruleV") auto
  obtain w5 where w5: "alloc_only w w5"
      "newMatch_filterArgs lib w5 (LTable ffs arr) = (f, rs, r_filterArgs r, w1)"
    using build_filterArgs[OF b] assms(1) by auto
  have "\<forall>j. \<not> oom w5 j" using w5(1) assms(4) by (simp add: alloc_only_def)
  from filterArgs_ok[OF assms(2,3) this, of ffs] w5(2)
  obtain a fa where "f = False" "rs = []" "r_filterArgs r = Some (a, fa)"
    "map item_view (takeWhile (\<lambda>it. argType it \<noteq> CDBUS_FILTER_ARG_INVALID) fa) =
       map (filter_of lib) (take 64 arr)"
    by auto
  then show ?thesis using b copy_filterArgs by auto
qed

lemma register_ok:
  assumes "\<not> oom w1 (nreq w1)" "lua_touserdata conn = Some ud" "reg_accepts w1 (rule_copy r)"
  shows "\<exists>m w4. newMatch_register w1 func user conn r = Inr (False, [], Some (brk w1, m), w4) \<and>
           handlers w4 = (next_hnd w1, rule_copy r) # handlers w1 \<and>
           matchHnd m = Some (next_hnd w1) \<and> live w4 = live w1 + {#brk w1#}"
  using assms
  by (simp add: newMatch_register_def l2dbus_calloc_def l2dbus_malloc_def
      cdbus_connectionRegMatchHandler_def luaL_ref_def l2dbus_callbackRef_def
      l2dbus_callbackInit_def Let_def split: prod.splits)

lemma newMatch_valid_filters:
  assumes "lua_istable ruleV" "lua_getfield ruleV ''filterArgs'' = LTable ffs arr" "arr \<noteq> []"
    and "\<forall>e\<in>set (take 64 arr). \<not> bad_element lib e" "\<forall>j. \<not> oom w j"
    and "lua_touserdata conn = Some ud"
    and "\<forall>rc. m_filterArgs rc = map (filter_of lib) (take 64 arr) \<longrightarrow> reg_accepts w rc"
  shows "\<exists>r w1. newMatch_build lib w ruleV = (False, [], r, w1) \<and>
           m_filterArgs (rule_copy r) = map (filter_of lib) (take 64 arr) \<and>
           (\<exists>ma m w'. l2dbus_newMatch lib w ruleV func user conn (Some em) =
                        Inr (Some (ma, m), (if em = None then None else Some []), w') \<and>
                      matchHnd m = Some (next_hnd w) \<and>
                      handlers w' = (next_hnd w, rule_copy r) # handlers w)"
proof -
  obtain r w1 where b: "newMatch_build lib w ruleV = (False, [], r, w1)"
      "m_filterArgs (rule_copy r) = map (filter_of lib) (take 64 arr)"
    using build_ok[OF assms(2,3,4,5)] by blast
  have ao: "alloc_only w w1" using build_frame[OF b(1)] by simp
  have o1: "\<not> oom w1 (nreq w1)" using ao assms(5) by (simp add: alloc_only_def)
  have acc: "reg_accepts w1 (rule_copy r)" using ao assms(7) b(2) by (simp add: alloc_only_def)
  obtain m w4 where reg: "newMatch_register w1 func user conn r = Inr (False, [], Some (brk w1, m), w4)"
      "handlers w4 = (next_hnd w1, rule_copy r) # handlers w1" "matchHnd m = Some (next_hnd w1)"
    using register_ok[OF o1 assms(6) acc, of func user] by blast
  have run: "newMatch_run lib w ruleV func user conn = Inr (False, [], Some (brk w1, m), r, w4)"
    using assms(1) b(1) reg(1) by (simp add: newMatch_run_def)
  obtain w5 where e: "l2dbus_newMatch lib w ruleV func user conn (Some em) =
       Inr (Some (brk w1, m), (if em = None then None else Some []), w5)" "alloc_only w4 w5"
    using newMatch_epilogue[OF run b(1), of em] by auto
  have "handlers w5 = (next_hnd w, rule_copy r) # handlers w"
    using e(2) reg(2) ao by (simp add: alloc_only_def)
  moreover have "matchHnd m = Some (next_hnd w)" using reg(3) ao by (simp add: alloc_only_def)
  ultimately show ?thesis using b e(1) by blast
qed

subsection \<open>Evaluation on concrete inputs\<close>

lemmas eval_defs =
  l2dbus_newMatch_def newMatch_run_def newMatch_build_def newMatch_register_def
  newMatch_filterArgs_def newMatch_strField_def newMatch_boolField_def newMatch_msgType_def
  newMatch_argType_def l2dbus_matchFreeRule_def l2dbus_free_def l2dbus_calloc_def
  l2dbus_malloc_def l2dbus_strDup_def cdbus_connectionRegMatchHandler_def rule_copy_def
  luaL_ref_def l2dbus_callbackRef_def l2dbus_callbackInit_def fresh_ref_def L2DBUS_TRACE_def
  LUA_NOREF_def LUA_REFNIL_def zero_match_def zero_item_def c_str_def lua_isnil_def
  DBUS_MAXIMUM_MATCH_RULE_ARG_NUMBER_def world0_def lib0_def conn0_def filter_elt_def
  Let_def

lemma elt_ok: "0 \<le> i \<Longrightarrow> i \<le> 63 \<Longrightarrow> \<not> bad_element lib0 (filter_elt i v)"
  by (simp add: bad_element_def type_tag_ok_def filter_elt_def lib0_def)

subsection \<open>Registration failure and the error message\<close>

text \<open>
  Rollback after a refused registration.  When the rule was built, the shell was allocated
  and the bus client rejects the registration, a call with a non-\<open>NULL\<close> \<open>errMsg\<close>
  returns \<open>NULL\<close>; the reason (stored when \<open>errMsg\<close> points to a string) is the
  registration-failure reason; the live blocks are those before the call, so the shell, every duplicated string
  and the filter array are freed; the registry is unchanged, so no connection or callback
  reference is taken; and no handler is registered.
\<close>

theorem newMatch_registration_failure_rolls_back:
  assumes "lua_istable ruleV"
    and "newMatch_build lib w ruleV = (False, reason0, r, w1)"
    and "l2dbus_calloc w1 = (Some ma, w2)"
    and "lua_touserdata conn = Some connUd"
    and "\<not> reg_accepts w (rule_copy r)"
  shows "\<exists>w'. l2dbus_newMatch lib w ruleV func user conn (Some e) =
               Inr (None, (if e = None then None else Some reason_register), w') \<and>
             live w' = live w \<and> registry w' = registry w \<and> handlers w' = handlers w"
proof -
  have ao1: "alloc_only w w1" using build_frame[OF assms(2)] by simp
  have c: "l2dbus_malloc w1 = (Some ma, w2)" using assms(3) by (simp add: l2dbus_calloc_def)
  have ao2: "alloc_only w1 w2" and lv2: "live w2 = live w1 + {#ma#}"
    using malloc_frame[OF c] by (simp_all add: opt_block_def)
  have rej: "\<not> reg_accepts w2 (rule_copy r)"
    using assms(5) ao1 ao2 by (simp add: alloc_only_def)
  let ?w2' = "w2\<lparr>events := events w2 @ [EvRegMatch None]\<rparr>"
  have run: "newMatch_run lib w ruleV func user conn =
               Inr (True, reason_register, Some (ma, zero_match\<lparr>matchHnd := None\<rparr>), r, ?w2')"
    using assms(1-4) reg_rejected[OF rej]
    by (simp add: newMatch_run_def newMatch_register_def)
  obtain B w4 where e: "live w1 = live w + B"
      "l2dbus_newMatch lib w ruleV func user conn (Some e) =
         Inr (None, (if e = None then None else Some reason_register), w4)"
      "alloc_only (l2dbus_free (Some ma) ?w2') w4"
      "live w4 = live (l2dbus_free (Some ma) ?w2') - B"
    using newMatch_epilogue[OF run assms(2), of e] by auto
  have "live w4 = live w"
    using e(1,4) lv2 by (simp add: l2dbus_free_def)
  moreover have "alloc_only w w4"
  proof -
    have "alloc_only w2 (l2dbus_free (Some ma) ?w2')"
      by (simp add: alloc_only_def l2dbus_free_def)
    then show ?thesis using ao1 ao2 e(3) alloc_only_trans by blast
  qed
  ultimately show ?thesis using e(2) by (auto simp: alloc_only_def)
qed

theorem newMatch_registration_failure_rolls_back_witness:
  "lua_istable rule_plain \<and> lua_touserdata conn0 = Some 9 \<and>
   fst (newMatch_build lib0 world_rej rule_plain) = False \<and>
   (\<exists>w'. l2dbus_newMatch lib0 world_rej rule_plain (LFunction 0) LNil conn0 (Some (Some ''x'')) =
           Inr (None, Some reason_register, w') \<and>
         live w' = {#} \<and> registry w' = [] \<and> handlers w' = [])"
proof -
  have h1: "lua_istable rule_plain" by (simp add: rule_plain_def)
  obtain f rs r w1 where b: "newMatch_build lib0 world_rej rule_plain = (f, rs, r, w1)"
    by (cases "newMatch_build lib0 world_rej rule_plain") auto
  have f: "f = False"
    using b by (simp add: eval_defs rule_plain_def world_rej_def)
  have ao: "alloc_only world_rej w1" using build_frame[OF b] by simp
  have "\<not> oom w1 (nreq w1)" using ao by (simp add: alloc_only_def world_rej_def world0_def)
  then obtain w2 where c: "l2dbus_calloc w1 = (Some (brk w1), w2)"
    by (simp add: l2dbus_calloc_def l2dbus_malloc_def)
  have h4: "lua_touserdata conn0 = Some 9" by (simp add: conn0_def)
  have h5: "\<not> reg_accepts world_rej (rule_copy r)" by (simp add: world_rej_def)
  have n: "live world_rej = {#}" "registry world_rej = []" "handlers world_rej = []"
    by (simp_all add: world_rej_def world0_def)
  from newMatch_registration_failure_rolls_back[OF h1 b[unfolded f] c h4 h5,
      of "LFunction 0" LNil "Some ''x''"]
  show ?thesis using h1 h4 b f by (simp add: n)
qed

text \<open>
  C7.  A refused registration does not always end in \<open>NULL\<close> together with a reason:
  for the criteria \<open>rule_plain\<close> and a bus client that refuses every rule, a call with
  \<open>errMsg = NULL\<close> dereferences \<open>NULL\<close> at the test \<open>*errMsg != NULL\<close>, which comes
  before the shell and the rule are freed, and a call whose \<open>errMsg\<close> points to a
  \<open>NULL\<close> string returns \<open>NULL\<close> and stores no reason.
\<close>

theorem newMatch_registration_failure_no_reason:
  "l2dbus_newMatch lib0 world_rej rule_plain (LFunction 0) LNil conn0 None = Inl NullDeref \<and>
   (\<exists>w'. l2dbus_newMatch lib0 world_rej rule_plain (LFunction 0) LNil conn0 (Some None) =
           Inr (None, None, w'))"
proof -
  have "\<exists>fl m r w2. newMatch_run lib0 world_rej rule_plain (LFunction 0) LNil conn0 =
          Inr (fl, reason_register, m, r, w2)"
    by (auto simp: eval_defs rule_plain_def world_rej_def)
  then obtain fl m r w2 where
    run: "newMatch_run lib0 world_rej rule_plain (LFunction 0) LNil conn0 =
          Inr (fl, reason_register, m, r, w2)" by blast
  have a: "l2dbus_newMatch lib0 world_rej rule_plain (LFunction 0) LNil conn0 None = Inl NullDeref"
    using run by (simp add: l2dbus_newMatch_def)
  have h1: "lua_istable rule_plain" by (simp add: rule_plain_def)
  obtain f rs r' w1 where b: "newMatch_build lib0 world_rej rule_plain = (f, rs, r', w1)"
    by (cases "newMatch_build lib0 world_rej rule_plain") auto
  have f: "f = False"
    using b by (simp add: eval_defs rule_plain_def world_rej_def)
  have ao: "alloc_only world_rej w1" using build_frame[OF b] by simp
  have "\<not> oom w1 (nreq w1)" using ao by (simp add: alloc_only_def world_rej_def world0_def)
  then obtain w2' where c: "l2dbus_calloc w1 = (Some (brk w1), w2')"
    by (simp add: l2dbus_calloc_def l2dbus_malloc_def)
  have h4: "lua_touserdata conn0 = Some 9" by (simp add: conn0_def)
  have h5: "\<not> reg_accepts world_rej (rule_copy r')" by (simp add: world_rej_def)
  from newMatch_registration_failure_rolls_back[OF h1 b[unfolded f] c h4 h5,
      of "LFunction 0" LNil None]
  have "\<exists>w'. l2dbus_newMatch lib0 world_rej rule_plain (LFunction 0) LNil conn0 (Some None) =
           Inr (None, None, w')" by auto
  then show ?thesis using a by simp
qed

text \<open>
  C8.  With \<open>errMsg = NULL\<close> no call returns normally: where the function reaches the
  test \<open>*errMsg != NULL\<close> it dereferences \<open>NULL\<close>.  With a non-\<open>NULL\<close>
  \<open>errMsg\<close> the call returns the same pointer and state whatever \<open>*errMsg\<close> held,
  and the reason is stored only if \<open>*errMsg\<close> was not \<open>NULL\<close>: a \<open>NULL\<close> string
  stays \<open>NULL\<close>.
\<close>

theorem newMatch_errMsg_deref:
  "isl (l2dbus_newMatch lib w ruleV func user conn None) \<and>
   (newMatch_run lib w ruleV func user conn = Inr (failed, reason, match, r, w2) \<longrightarrow>
      l2dbus_newMatch lib w ruleV func user conn None = Inl NullDeref \<and>
      (\<exists>m w'. l2dbus_newMatch lib w ruleV func user conn (Some None) = Inr (m, None, w') \<and>
              (\<forall>s. l2dbus_newMatch lib w ruleV func user conn (Some (Some s)) =
                     Inr (m, Some reason, w'))))"
proof (intro conjI impI)
  show "isl (l2dbus_newMatch lib w ruleV func user conn None)"
    by (auto simp: l2dbus_newMatch_def split: sum.splits)
next
  assume run: "newMatch_run lib w ruleV func user conn = Inr (failed, reason, match, r, w2)"
  then show "l2dbus_newMatch lib w ruleV func user conn None = Inl NullDeref"
    by (simp add: l2dbus_newMatch_def)
  obtain f0 r0 r' w1 where bld: "newMatch_build lib w ruleV = (f0, r0, r', w1)"
    by (cases "newMatch_build lib w ruleV") auto
  from newMatch_epilogue[OF run bld, of None] obtain w4 where
    a: "l2dbus_newMatch lib w ruleV func user conn (Some None) =
          Inr ((if failed then None else match), None, w4)" by auto
  have b: "l2dbus_newMatch lib w ruleV func user conn (Some (Some s)) =
          Inr ((if failed then None else match), Some reason, w4)" for s
    using a run by (auto simp: l2dbus_newMatch_def Let_def split: sum.splits if_splits prod.splits)
  show "\<exists>m w'. l2dbus_newMatch lib w ruleV func user conn (Some None) = Inr (m, None, w') \<and>
              (\<forall>s. l2dbus_newMatch lib w ruleV func user conn (Some (Some s)) =
                     Inr (m, Some reason, w'))"
    using a b by blast
qed

theorem newMatch_errMsg_deref_witness:
  "l2dbus_newMatch lib0 world_rej rule_plain (LFunction 0) LNil conn0 None = Inl NullDeref \<and>
   (\<exists>m w'. l2dbus_newMatch lib0 world_rej rule_plain (LFunction 0) LNil conn0 (Some None) =
             Inr (m, None, w') \<and>
           l2dbus_newMatch lib0 world_rej rule_plain (LFunction 0) LNil conn0 (Some (Some ''x'')) =
             Inr (m, Some reason_register, w'))"
proof -
  have "\<exists>fl m r w2. newMatch_run lib0 world_rej rule_plain (LFunction 0) LNil conn0 =
          Inr (fl, reason_register, m, r, w2)"
    by (auto simp: eval_defs rule_plain_def world_rej_def)
  then obtain fl m r w2 where
    run: "newMatch_run lib0 world_rej rule_plain (LFunction 0) LNil conn0 =
          Inr (fl, reason_register, m, r, w2)" by blast
  from newMatch_errMsg_deref[of lib0 world_rej rule_plain "LFunction 0" LNil conn0
      fl reason_register m r w2] run
  show ?thesis by blast
qed

subsection \<open>The filter list\<close>

text \<open>
  C4.  When the \<open>filterArgs\<close> table has more than 64 elements and none of the first 64
  is defective (and no allocation fails), the rule is built without failure from exactly
  the first 64 elements, whatever the later elements are; if the bus client accepts such a
  rule, \<open>l2dbus_newMatch\<close> returns the subscription with an empty reason and that rule
  is registered.
\<close>

theorem newMatch_truncates_to_64:
  assumes "lua_istable ruleV" "lua_getfield ruleV ''filterArgs'' = LTable ffs arr"
    and "64 < length arr"
    and "\<forall>e\<in>set (take 64 arr). \<not> bad_element lib e" "\<forall>j. \<not> oom w j"
    and "lua_touserdata conn = Some ud"
    and "\<forall>rc. m_filterArgs rc = map (filter_of lib) (take 64 arr) \<longrightarrow> reg_accepts w rc"
  shows "\<exists>r w1. newMatch_build lib w ruleV = (False, [], r, w1) \<and>
           m_filterArgs (rule_copy r) = map (filter_of lib) (take 64 arr) \<and>
           length (m_filterArgs (rule_copy r)) = 64 \<and>
           (\<exists>ma m w'. l2dbus_newMatch lib w ruleV func user conn (Some em) =
                        Inr (Some (ma, m), (if em = None then None else Some []), w') \<and>
                      matchHnd m = Some (next_hnd w) \<and>
                      handlers w' = (next_hnd w, rule_copy r) # handlers w)"
proof -
  have ne: "arr \<noteq> []" using assms(3) by auto
  from newMatch_valid_filters[OF assms(1,2) ne assms(4,5,6,7), of func user em]
  obtain r w1 where r: "newMatch_build lib w ruleV = (False, [], r, w1)"
      "m_filterArgs (rule_copy r) = map (filter_of lib) (take 64 arr)"
      "\<exists>ma m w'. l2dbus_newMatch lib w ruleV func user conn (Some em) =
                        Inr (Some (ma, m), (if em = None then None else Some []), w') \<and>
                      matchHnd m = Some (next_hnd w) \<and>
                      handlers w' = (next_hnd w, rule_copy r) # handlers w"
    by blast
  have "length (m_filterArgs (rule_copy r)) = 64" using r(2) assms(3) by simp
  then show ?thesis using r by blast
qed

theorem newMatch_truncates_to_64_witness:
  "lua_istable rule_65 \<and>
   64 < length (map (\<lambda>k. filter_elt (int k) ''v'') [0..<65]) \<and>
   list_all (\<lambda>e. \<not> bad_element lib0 e) (take 64 (map (\<lambda>k. filter_elt (int k) ''v'') [0..<65])) \<and>
   bad_element lib0 (map (\<lambda>k. filter_elt (int k) ''v'') [0..<65] ! 64) \<and>
   (\<exists>r w1. newMatch_build lib0 world0 rule_65 = (False, [], r, w1) \<and>
      m_filterArgs (rule_copy r) =
        map (filter_of lib0) (take 64 (map (\<lambda>k. filter_elt (int k) ''v'') [0..<65])) \<and>
      length (m_filterArgs (rule_copy r)) = 64 \<and>
      (\<exists>ma m w'. l2dbus_newMatch lib0 world0 rule_65 (LFunction 0) LNil conn0 (Some (Some ''x'')) =
                   Inr (Some (ma, m), Some [], w') \<and>
                 matchHnd m = Some 0 \<and>
                 handlers w' = [(0, rule_copy r)]))"
proof -
  let ?arr = "map (\<lambda>k. filter_elt (int k) ''v'') [0..<65]"
  have h1: "lua_istable rule_65" by (simp add: rule_65_def)
  have h2: "lua_getfield rule_65 ''filterArgs'' = LTable [] ?arr" by (simp add: rule_65_def)
  have h3: "64 < length ?arr" by simp
  have h4: "\<forall>e\<in>set (take 64 ?arr). \<not> bad_element lib0 e"
    using elt_ok by (auto simp: take_map)
  have h5: "\<forall>j. \<not> oom world0 j" by (simp add: world0_def)
  have h6: "lua_touserdata conn0 = Some 9" by (simp add: conn0_def)
  have h7: "\<forall>rc. m_filterArgs rc = map (filter_of lib0) (take 64 ?arr) \<longrightarrow> reg_accepts world0 rc"
    by (simp add: world0_def)
  have b: "bad_element lib0 (?arr ! 64)"
    by (simp add: nth_append bad_element_def type_tag_ok_def filter_elt_def lib0_def)
  have n: "next_hnd world0 = 0" "handlers world0 = []" by (simp_all add: world0_def)
  from newMatch_truncates_to_64[OF h1 h2 h3 h4 h5 h6 h7, of "LFunction 0" LNil "Some ''x''"]
  show ?thesis
    using h1 h3 h4 b by (simp add: n list_all_iff)
qed

text \<open>Two filter elements with the same index 0: the rule is built and registered with
  both.\<close>

theorem newMatch_duplicate_index_counterexample:
  "lua_getfield rule_dup ''filterArgs'' = LTable [] [filter_elt 0 ''a'', filter_elt 0 ''b''] \<and>
   lua_getfield (filter_elt 0 ''a'') ''index'' = lua_getfield (filter_elt 0 ''b'') ''index'' \<and>
   (case l2dbus_newMatch lib0 world0 rule_dup (LFunction 0) LNil conn0 (Some (Some ''x'')) of
      Inr (Some m, e, w') \<Rightarrow>
        e = Some [] \<and>
        map (\<lambda>hr. m_filterArgs (snd hr)) (handlers w') =
          [[(CDBUS_FILTER_ARG, 0, Some ''a''), (CDBUS_FILTER_ARG, 0, Some ''b'')]]
    | _ \<Rightarrow> False)"
  by (simp add: eval_defs rule_dup_def newMatch_argLoop.simps matchFreeRule_loop.simps)

text \<open>
  C1, as the code has it.  The builder makes no uniqueness check: when two of the first 64
  elements of a \<open>filterArgs\<close> list carry the same index and no element examined is
  defective (no allocation fails, the bus client accepts the rule), \<open>l2dbus_newMatch\<close>
  succeeds and the registered rule holds both elements, at their positions, with the same
  index.
\<close>

theorem newMatch_accepts_duplicate_indices:
  assumes "lua_istable ruleV" "lua_getfield ruleV ''filterArgs'' = LTable ffs arr"
    and "i < j" "j < length arr" "j < 64"
    and "lua_tointeger lib (lua_getfield (arr ! i) ''index'') =
         lua_tointeger lib (lua_getfield (arr ! j) ''index'')"
    and "\<forall>e\<in>set (take 64 arr). \<not> bad_element lib e" "\<forall>j. \<not> oom w j"
    and "lua_touserdata conn = Some ud"
    and "\<forall>rc. m_filterArgs rc = map (filter_of lib) (take 64 arr) \<longrightarrow> reg_accepts w rc"
  shows "\<exists>ma m w' rc. l2dbus_newMatch lib w ruleV func user conn (Some em) =
                        Inr (Some (ma, m), (if em = None then None else Some []), w') \<and>
           handlers w' = (next_hnd w, rc) # handlers w \<and>
           m_filterArgs rc ! i = filter_of lib (arr ! i) \<and>
           m_filterArgs rc ! j = filter_of lib (arr ! j) \<and>
           fst (snd (m_filterArgs rc ! i)) = fst (snd (m_filterArgs rc ! j))"
proof -
  have ne: "arr \<noteq> []" using assms(4) by auto
  from newMatch_valid_filters[OF assms(1,2) ne assms(7,8,9,10), of func user em]
  obtain r ma m w' where r:
      "m_filterArgs (rule_copy r) = map (filter_of lib) (take 64 arr)"
      "l2dbus_newMatch lib w ruleV func user conn (Some em) =
                        Inr (Some (ma, m), (if em = None then None else Some []), w')"
      "handlers w' = (next_hnd w, rule_copy r) # handlers w"
    by blast
  have "m_filterArgs (rule_copy r) ! i = filter_of lib (arr ! i)"
       "m_filterArgs (rule_copy r) ! j = filter_of lib (arr ! j)"
    using r(1) assms(3,4,5) by simp_all
  moreover from this have "fst (snd (m_filterArgs (rule_copy r) ! i)) =
                           fst (snd (m_filterArgs (rule_copy r) ! j))"
    using assms(6) by (simp add: filter_of_def)
  ultimately show ?thesis using r(2,3) by blast
qed

theorem newMatch_accepts_duplicate_indices_witness:
  "lua_istable rule_dup \<and>
   lua_getfield rule_dup ''filterArgs'' = LTable [] [filter_elt 0 ''a'', filter_elt 0 ''b''] \<and>
   list_all (\<lambda>e. \<not> bad_element lib0 e) [filter_elt 0 ''a'', filter_elt 0 ''b''] \<and>
   (\<exists>ma m w' rc. l2dbus_newMatch lib0 world0 rule_dup (LFunction 0) LNil conn0 (Some (Some ''x'')) =
                   Inr (Some (ma, m), Some [], w') \<and>
      handlers w' = [(0, rc)] \<and>
      m_filterArgs rc ! 0 = filter_of lib0 (filter_elt 0 ''a'') \<and>
      m_filterArgs rc ! 1 = filter_of lib0 (filter_elt 0 ''b'') \<and>
      fst (snd (m_filterArgs rc ! 0)) = fst (snd (m_filterArgs rc ! 1)))"
proof -
  let ?arr = "[filter_elt 0 ''a'', filter_elt 0 ''b'']"
  have h1: "lua_istable rule_dup" by (simp add: rule_dup_def)
  have h2: "lua_getfield rule_dup ''filterArgs'' = LTable [] ?arr" by (simp add: rule_dup_def)
  have h3: "(0::nat) < 1" "1 < length ?arr" "(1::nat) < 64" by simp_all
  have h4: "lua_tointeger lib0 (lua_getfield (?arr ! 0) ''index'') =
            lua_tointeger lib0 (lua_getfield (?arr ! 1) ''index'')"
    by (simp add: filter_elt_def)
  have h5: "\<forall>e\<in>set (take 64 ?arr). \<not> bad_element lib0 e" by (simp add: elt_ok)
  have h6: "\<forall>j. \<not> oom world0 j" by (simp add: world0_def)
  have h7: "lua_touserdata conn0 = Some 9" by (simp add: conn0_def)
  have h8: "\<forall>rc. m_filterArgs rc = map (filter_of lib0) (take 64 ?arr) \<longrightarrow> reg_accepts world0 rc"
    by (simp add: world0_def)
  have n: "next_hnd world0 = 0" "handlers world0 = []" by (simp_all add: world0_def)
  from newMatch_accepts_duplicate_indices[OF h1 h2 h3 h4 h5 h6 h7 h8,
      of "LFunction 0" LNil "Some ''x''"]
  show ?thesis using h1 h2 h5 by (simp add: n)
qed

text \<open>A \<open>filterArgs\<close> field that is present but not a table: the field is ignored and the
  subscription is created.\<close>

theorem newMatch_nonsequence_counterexample:
  "lua_getfield rule_notseq ''filterArgs'' = LNumber 5 \<and> \<not> lua_istable (LNumber 5) \<and>
   (case l2dbus_newMatch lib0 world0 rule_notseq (LFunction 0) LNil conn0 (Some (Some ''x'')) of
      Inr (Some m, e, w') \<Rightarrow> e = Some [] \<and> map fst (handlers w') = [0] \<and> live w' = {#fst m#}
    | _ \<Rightarrow> False)"
  by (simp add: eval_defs rule_notseq_def)

subsection \<open>A \<open>filterArgs\<close> field that is not a table, and defective elements\<close>

lemma strDup_nreq: "l2dbus_strDup w s = (p, w') \<Longrightarrow> nreq w' = Suc (nreq w)"
  by (auto simp: l2dbus_strDup_def l2dbus_malloc_def split: if_splits)

lemma strField_nreq:
  assumes "newMatch_strField lib w v = (p, w')"
  shows "nreq w' = nreq w + (if lua_isstring v then 1 else 0)"
proof (cases "lua_isstring v")
  case True
  then obtain s where "lua_tostring lib v = Some s" using isstring_tostring by blast
  then show ?thesis using True assms strDup_nreq[of w s p w']
    by (simp add: newMatch_strField_def)
next
  case False
  then show ?thesis using assms by (simp add: newMatch_strField_def)
qed

lemma build_filterArgs_nreq:
  assumes "newMatch_build lib w ruleV = (failed, reason, r, w')"
  shows "\<exists>w5. alloc_only w w5 \<and> nreq w5 = nreq w + str_requests ruleV \<and>
           newMatch_filterArgs lib w5 (lua_getfield ruleV ''filterArgs'') =
             (failed, reason, r_filterArgs r, w')"
proof -
  let ?w0 = "L2DBUS_TRACE w L2DBUS_TRC_TRACE ''Create: match'' []"
  have t0: "alloc_only w ?w0 \<and> live ?w0 = live w" by (rule trace_frame)
  have n0: "nreq ?w0 = nreq w" by (simp add: L2DBUS_TRACE_def)
  obtain m w1 where f1: "newMatch_strField lib ?w0 (lua_getfield ruleV ''member'') = (m, w1)"
    by (cases "newMatch_strField lib ?w0 (lua_getfield ruleV ''member'')") auto
  obtain i w2 where f2: "newMatch_strField lib w1 (lua_getfield ruleV ''interface'') = (i, w2)"
    by (cases "newMatch_strField lib w1 (lua_getfield ruleV ''interface'')") auto
  obtain s w3 where f3: "newMatch_strField lib w2 (lua_getfield ruleV ''sender'') = (s, w3)"
    by (cases "newMatch_strField lib w2 (lua_getfield ruleV ''sender'')") auto
  obtain p w4 where f4: "newMatch_strField lib w3 (lua_getfield ruleV ''path'') = (p, w4)"
    by (cases "newMatch_strField lib w3 (lua_getfield ruleV ''path'')") auto
  obtain a0 w5 where f5: "newMatch_strField lib w4 (lua_getfield ruleV ''arg0Namespace'') = (a0, w5)"
    by (cases "newMatch_strField lib w4 (lua_getfield ruleV ''arg0Namespace'')") auto
  obtain fl rs fargs w6 where
    f6: "newMatch_filterArgs lib w5 (lua_getfield ruleV ''filterArgs'') = (fl, rs, fargs, w6)"
    by (cases "newMatch_filterArgs lib w5 (lua_getfield ruleV ''filterArgs'')") auto
  have r: "failed = fl" "reason = rs" "r_filterArgs r = fargs" "w' = w6"
    using assms f1 f2 f3 f4 f5 f6 by (auto simp: newMatch_build_def Let_def)
  have ao: "alloc_only w w5"
    using t0 strField_frame[OF f1] strField_frame[OF f2] strField_frame[OF f3]
      strField_frame[OF f4] strField_frame[OF f5] by (simp add: alloc_only_def)
  have "nreq w5 = nreq w + str_requests ruleV"
    using n0 strField_nreq[OF f1] strField_nreq[OF f2] strField_nreq[OF f3]
      strField_nreq[OF f4] strField_nreq[OF f5]
    by (simp add: str_requests_def)
  then show ?thesis using ao f6 r by auto
qed

lemma filterArgs_bad_exact:
  assumes "find (bad_element lib) (take 64 arr) = Some e"
  shows "\<exists>fargs w'. newMatch_filterArgs lib w (LTable ffs arr) =
           (True, (if oom w (nreq w) then reason_alloc_args else element_reason lib e), fargs, w')"
proof (cases "oom w (nreq w)")
  case False
  from filterArgs_bad[OF assms False, of ffs] False show ?thesis by auto
next
  case True
  have ne: "arr \<noteq> []" using assms by auto
  have "l2dbus_calloc w = (None, w\<lparr>nreq := Suc (nreq w)\<rparr>)"
    using True by (simp add: l2dbus_calloc_def l2dbus_malloc_def)
  then show ?thesis using ne True
    by (simp add: newMatch_filterArgs_def Let_def)
qed

lemma build_bad_exact:
  assumes "lua_getfield ruleV ''filterArgs'' = LTable ffs arr"
    and "find (bad_element lib) (take 64 arr) = Some e"
  shows "\<exists>r w1. newMatch_build lib w ruleV =
           (True, (if oom w (nreq w + str_requests ruleV) then reason_alloc_args
                   else element_reason lib e), r, w1)"
proof -
  obtain f rs r w1 where b: "newMatch_build lib w ruleV = (f, rs, r, w1)"
    by (cases "newMatch_build lib w ruleV") auto
  obtain w5 where w5: "alloc_only w w5" "nreq w5 = nreq w + str_requests ruleV"
      "newMatch_filterArgs lib w5 (LTable ffs arr) = (f, rs, r_filterArgs r, w1)"
    using build_filterArgs_nreq[OF b] assms(1) by auto
  have o: "oom w5 = oom w" using w5(1) by (simp add: alloc_only_def)
  from filterArgs_bad_exact[OF assms(2), of w5 ffs] w5(2,3) o
  have "f = True \<and> rs = (if oom w (nreq w + str_requests ruleV) then reason_alloc_args
                   else element_reason lib e)"
    by auto
  then show ?thesis using b by auto
qed

lemma map_of_filter_key:
  "map_of (filter (\<lambda>kv. fst kv \<noteq> a) fs) k = (if k = a then None else map_of fs k)"
  by (induction fs) auto

lemma getfield_without:
  "lua_istable r \<Longrightarrow>
     lua_getfield (without_filterArgs r) k =
       (if k = ''filterArgs'' then LNil else lua_getfield r k)"
  by (cases r) (simp_all add: map_of_filter_key)

lemma filterArgs_nontable:
  "\<not> lua_istable v \<Longrightarrow> newMatch_filterArgs lib w v = (False, [], None, w)"
  by (simp add: newMatch_filterArgs_def)

lemma build_nontable:
  assumes "lua_istable ruleV" "\<not> lua_istable (lua_getfield ruleV ''filterArgs'')"
  shows "newMatch_build lib w ruleV = newMatch_build lib w (without_filterArgs ruleV) \<and>
         (\<exists>r w1. newMatch_build lib w ruleV = (False, [], r, w1) \<and> r_filterArgs r = None)"
proof -
  have g: "newMatch_filterArgs lib w5 (lua_getfield ruleV ''filterArgs'') =
           newMatch_filterArgs lib w5 (lua_getfield (without_filterArgs ruleV) ''filterArgs'')" for w5
    using assms by (simp add: filterArgs_nontable getfield_without)
  have eq: "newMatch_build lib w ruleV = newMatch_build lib w (without_filterArgs ruleV)"
    unfolding newMatch_build_def using assms(1) by (simp add: getfield_without g)
  obtain f rs r w1 where b: "newMatch_build lib w ruleV = (f, rs, r, w1)"
    by (cases "newMatch_build lib w ruleV") auto
  obtain w5 where "newMatch_filterArgs lib w5 (lua_getfield ruleV ''filterArgs'') =
             (f, rs, r_filterArgs r, w1)"
    using build_filterArgs_nreq[OF b] by auto
  then have "f = False \<and> rs = [] \<and> r_filterArgs r = None"
    using assms(2) by (simp add: filterArgs_nontable)
  then have "newMatch_build lib w ruleV = (False, [], r, w1) \<and> r_filterArgs r = None"
    using b by simp
  then show ?thesis using eq by blast
qed

lemma without_istable: "lua_istable (without_filterArgs r) = lua_istable r"
  by (cases r) simp_all

text \<open>With an unsigned 8-bit \<open>argN\<close> field the index 256 is stored as 0 and is accepted;
  with a field that holds it unchanged it is out of range.\<close>

lemma index_256_depends_on_field_width:
  "\<not> bad_element (lib0\<lparr>argN_store := (\<lambda>n. n mod 256)\<rparr>) (filter_elt 256 ''a'') \<and>
   bad_element lib0 (filter_elt 256 ''a'')"
  by (simp add: bad_element_def type_tag_ok_def filter_elt_def lib0_def)

text \<open>
  C2, as the code has it.  A \<open>filterArgs\<close> field that is not a table is ignored:
  \<open>l2dbus_newMatch\<close> does exactly what it does for the same criteria table without the
  field, and the rule is built without failure and without filter items.  When
  \<open>filterArgs\<close> is a table and \<open>e\<close> is the first defective element among its first 64
  (not a table; a type tag that is neither absent nor \<open>string\<close> nor \<open>path\<close>; an index
  that is not a number or whose value as stored in the field \<open>argN\<close> lies outside
  \<open>[0, 63]\<close>; a value that is not a string), a call whose \<open>errMsg\<close> points to a string
  returns \<open>NULL\<close> and stores the reason there: the allocation reason if the request for
  the filter array fails, else the reason of the first check \<open>e\<close> fails; nothing is
  registered, no reference is taken, and every block allocated is freed.
\<close>

theorem newMatch_rejects_defective_element:
  assumes "lua_istable ruleV"
  shows "(\<not> lua_istable (lua_getfield ruleV ''filterArgs'') \<longrightarrow>
            l2dbus_newMatch lib w ruleV func user conn errMsg =
              l2dbus_newMatch lib w (without_filterArgs ruleV) func user conn errMsg \<and>
            (\<exists>r w1. newMatch_build lib w ruleV = (False, [], r, w1) \<and> r_filterArgs r = None)) \<and>
         (lua_getfield ruleV ''filterArgs'' = LTable ffs arr \<and>
          find (bad_element lib) (take 64 arr) = Some e \<longrightarrow>
            (\<exists>w'. l2dbus_newMatch lib w ruleV func user conn (Some (Some s)) =
                     Inr (None,
                          Some (if oom w (nreq w + str_requests ruleV) then reason_alloc_args
                                else element_reason lib e),
                          w') \<and>
                   live w' = live w \<and> registry w' = registry w \<and> handlers w' = handlers w) \<and>
            element_reason lib e \<in> {reason_not_table, reason_bad_type, reason_no_index,
                                      reason_index_range, reason_no_value})"
proof (intro conjI impI)
  assume nt: "\<not> lua_istable (lua_getfield ruleV ''filterArgs'')"
  note b = build_nontable[OF assms nt, of lib w]
  show "l2dbus_newMatch lib w ruleV func user conn errMsg =
          l2dbus_newMatch lib w (without_filterArgs ruleV) func user conn errMsg"
    using b assms by (simp add: l2dbus_newMatch_def newMatch_run_def without_istable)
  show "\<exists>r w1. newMatch_build lib w ruleV = (False, [], r, w1) \<and> r_filterArgs r = None"
    using b by blast
next
  assume h: "lua_getfield ruleV ''filterArgs'' = LTable ffs arr \<and>
             find (bad_element lib) (take 64 arr) = Some e"
  let ?reason = "if oom w (nreq w + str_requests ruleV) then reason_alloc_args
                 else element_reason lib e"
  obtain r w1 where b: "newMatch_build lib w ruleV = (True, ?reason, r, w1)"
    using build_bad_exact[of ruleV ffs arr lib e w] h by blast
  have run: "newMatch_run lib w ruleV func user conn = Inr (True, ?reason, None, r, w1)"
    using assms b by (simp add: newMatch_run_def)
  obtain B w4 where e: "alloc_only w w1" "live w1 = live w + B"
      "l2dbus_newMatch lib w ruleV func user conn (Some (Some s)) =
         Inr (None, Some ?reason, w4)"
      "alloc_only (l2dbus_free None w1) w4" "live w4 = live (l2dbus_free None w1) - B"
    using newMatch_epilogue[OF run b, of "Some s"] by auto
  have "live w4 = live w" using e(2,5) by (simp add: l2dbus_free_def)
  moreover have "alloc_only w w4"
    using e(1,4) alloc_only_trans[of w w1 w4] by (simp add: l2dbus_free_def)
  ultimately show "\<exists>w'. l2dbus_newMatch lib w ruleV func user conn (Some (Some s)) =
                     Inr (None, Some ?reason, w') \<and>
                   live w' = live w \<and> registry w' = registry w \<and> handlers w' = handlers w"
    using e(3) by (auto simp: alloc_only_def)
next
  show "element_reason lib e \<in> {reason_not_table, reason_bad_type, reason_no_index,
                                      reason_index_range, reason_no_value}"
    by (simp add: element_reason_def)
qed

theorem newMatch_rejects_defective_element_witness:
  "lua_istable rule_notseq \<and> \<not> lua_istable (lua_getfield rule_notseq ''filterArgs'') \<and>
   l2dbus_newMatch lib0 world0 rule_notseq (LFunction 0) LNil conn0 (Some (Some ''x'')) =
     l2dbus_newMatch lib0 world0 (without_filterArgs rule_notseq) (LFunction 0) LNil conn0
       (Some (Some ''x'')) \<and>
   without_filterArgs rule_notseq = LTable [] [] \<and>
   lua_istable rule_badidx \<and>
   find (bad_element lib0) (take 64 [filter_elt 0 ''a'', filter_elt 64 ''b'']) =
     Some (filter_elt 64 ''b'') \<and>
   element_reason lib0 (filter_elt 64 ''b'') = reason_index_range \<and>
   (\<exists>w'. l2dbus_newMatch lib0 world0 rule_badidx (LFunction 0) LNil conn0 (Some (Some ''x'')) =
           Inr (None, Some reason_index_range, w') \<and>
         live w' = {#} \<and> registry w' = [] \<and> handlers w' = [])"
proof -
  let ?arr = "[filter_elt 0 ''a'', filter_elt 64 ''b'']"
  have a1: "lua_istable rule_notseq" by (simp add: rule_notseq_def)
  have a2: "\<not> lua_istable (lua_getfield rule_notseq ''filterArgs'')"
    by (simp add: rule_notseq_def)
  have a3: "without_filterArgs rule_notseq = LTable [] []" by (simp add: rule_notseq_def)
  have h1: "lua_istable rule_badidx" by (simp add: rule_badidx_def)
  have h2: "lua_getfield rule_badidx ''filterArgs'' = LTable [] ?arr"
    by (simp add: rule_badidx_def)
  have h3: "find (bad_element lib0) (take 64 ?arr) = Some (filter_elt 64 ''b'')"
    by (simp add: bad_element_def type_tag_ok_def filter_elt_def lib0_def)
  have r: "element_reason lib0 (filter_elt 64 ''b'') = reason_index_range"
    by (simp add: element_reason_def type_tag_ok_def filter_elt_def lib0_def)
  have o: "\<not> oom world0 j" for j by (simp add: world0_def)
  have n: "live world0 = {#}" "registry world0 = []" "handlers world0 = []"
    by (simp_all add: world0_def)
  from newMatch_rejects_defective_element[OF a1, of lib0 world0 "LFunction 0" LNil conn0
      "Some (Some ''x'')"] a2
  have p1: "l2dbus_newMatch lib0 world0 rule_notseq (LFunction 0) LNil conn0 (Some (Some ''x'')) =
     l2dbus_newMatch lib0 world0 (without_filterArgs rule_notseq) (LFunction 0) LNil conn0
       (Some (Some ''x''))" by blast
  from newMatch_rejects_defective_element[OF h1, of lib0 world0 "LFunction 0" LNil conn0
      _ "[]" ?arr "filter_elt 64 ''b''" "''x''"] h2 h3
  have p2: "\<exists>w'. l2dbus_newMatch lib0 world0 rule_badidx (LFunction 0) LNil conn0 (Some (Some ''x'')) =
           Inr (None, Some reason_index_range, w') \<and>
         live w' = {#} \<and> registry w' = [] \<and> handlers w' = []"
    by (simp add: o n r)
  show ?thesis using a1 a2 a3 h1 h3 r p1 p2 by simp
qed

end
